theory Spec2Isabelle
  imports Main "HOL-Library.Word" "HOL-Library.AList"
begin

section \<open>CRL management core of the PKI secrets engine\<close>

text \<open>
  A shallow embedding of the Go package \<^verbatim>\<open>pki\<close> (the CRL builder, \<^verbatim>\<open>revokeCert\<close>,
  \<^verbatim>\<open>buildCRLs\<close> and their helpers).  Everything the package takes from outside (the
  issuer repository, the X.509 library, the clock, the storage driver's failures, the
  iteration order of Go maps) is a field of the record \<open>env\<close>; everything the package
  mutates (the key/value storage and the builder singleton) is a field of the record
  \<open>state\<close>.  A Go function that returns \<^verbatim>\<open>(x, err)\<close> and mutates becomes a function
  \<open>state \<Rightarrow> (error + 'a) \<times> state\<close>: the state comes back on the error path too,
  since writes made before a failure stay in storage.
\<close>

subsection \<open>Data model\<close>

type_synonym issuerID = string
type_synonym crlID = string
type_synonym keyID = string
type_synonym bytes = string

text \<open>
  \<^verbatim>\<open>time.Time\<close> as nanoseconds since Go's zero time, so that \<^verbatim>\<open>IsZero\<close> is \<open>t = 0\<close>;
  a \<^verbatim>\<open>time.Duration\<close> is a number of nanoseconds.
\<close>

type_synonym time = int
type_synonym duration = int

definition IsZero :: "time \<Rightarrow> bool" where
  "IsZero t = (t = 0)"

definition Second :: duration where
  "Second = 1000000000"

text \<open>Seconds between Go's zero time (year 1) and the Unix epoch.\<close>

definition unixToInternal :: int where
  "unixToInternal = 62135596800"

definition time_Unix :: "int \<Rightarrow> time" where
  "time_Unix sec = (sec + unixToInternal) * Second"

definition Unix :: "time \<Rightarrow> int" where
  "Unix t = t div Second - unixToInternal"

text \<open>
  The three kinds of Go error the code tells apart: \<^verbatim>\<open>errutil.UserError\<close>,
  \<^verbatim>\<open>errutil.InternalError\<close>, and any other error (\<^verbatim>\<open>fmt.Errorf\<close>, storage errors);
  and a run-time panic.
\<close>

datatype error = UserError string | InternalError string | PlainError string | Panic string

fun err_string :: "error \<Rightarrow> string" where
  "err_string (UserError m) = m"
| "err_string (InternalError m) = m"
| "err_string (PlainError m) = m"
| "err_string (Panic m) = m"

text \<open>
  \<^verbatim>\<open>fmt.Errorf(prefix + "%v", err)\<close>: a new plain error.  A panic (a nil dereference) is
  not an error value and passes every \<^verbatim>\<open>if err != nil\<close> untouched.
\<close>

fun Errorf :: "string \<Rightarrow> error \<Rightarrow> error" where
  "Errorf prefix (Panic m) = Panic m"
| "Errorf prefix e = PlainError (prefix @ err_string e)"

fun is_UserError :: "error \<Rightarrow> bool" where
  "is_UserError (UserError m) = True"
| "is_UserError e = False"

record certificate =
  Raw :: bytes
  RawIssuer :: bytes
  RawSubject :: bytes
  SerialNumber :: int
  NotAfter :: time
  IsCA :: bool

record revocationInfo =
  CertificateBytes :: bytes
  RevocationTime :: int
  RevocationTimeUTC :: time
  CertificateIssuer :: issuerID

definition zero_revocationInfo :: revocationInfo where
  "zero_revocationInfo =
     \<lparr>CertificateBytes = [], RevocationTime = 0, RevocationTimeUTC = 0, CertificateIssuer = []\<rparr>"

text \<open>The fields of \<^verbatim>\<open>crlConfig\<close> and \<^verbatim>\<open>issuerEntry\<close> that the code reads.\<close>

record crlConfig =
  Expiry :: string
  Disable :: bool
  AutoRebuild :: bool
  AutoRebuildGracePeriod :: string

record issuerEntry =
  KeyID :: keyID
  CRLSigningUsage :: bool
  Revoked :: bool
  issuer_RevocationTimeUTC :: time
  GetCertificate :: "error + certificate"

record issuerConfigEntry =
  DefaultIssuerId :: issuerID

record caInfoBundle =
  ca_Certificate :: certificate
  ca_PrivateKey :: bytes
  ca_RevocationSigAlg :: nat

record RevokedCertificate =
  rc_SerialNumber :: int
  rc_RevocationTime :: time

record RevocationList =
  RevokedCertificates :: "RevokedCertificate list"
  Number :: "64 word"
  ThisUpdate :: time
  NextUpdate :: time
  SignatureAlgorithm :: nat

text \<open>
  Go maps are association lists: \<open>map_of\<close> reads, \<open>AList.update\<close> assigns,
  \<open>AList.delete\<close> deletes, a missing key reads as the zero value.
\<close>

record localCRLConfigEntry =
  IssuerIDCRLMap :: "(issuerID \<times> crlID) list"
  CRLNumberMap :: "(crlID \<times> 64 word) list"
  CRLExpirationMap :: "(crlID \<times> time) list"

text \<open>
  What a storage entry holds.  The byte encodings (JSON, DER) are abstracted: an entry
  is raw bytes, an encoded \<^verbatim>\<open>revocationInfo\<close>, a signed CRL (the template that was
  signed and the certificate of the signer), or the encoded cluster-local CRL index.
\<close>

datatype sval =
  SBytes bytes
| SRevInfo revocationInfo
| SCRL RevocationList certificate
| SLocalCRLConfig localCRLConfigEntry

datatype storage_op = OpGet | OpPut | OpDelete | OpList

datatype rval = RInt int | RStr string

record response =
  resp_Data :: "(string \<times> rval) list"
  resp_Warnings :: "string list"

definition ErrorResponse :: "string \<Rightarrow> response" where
  "ErrorResponse text = \<lparr>resp_Data = [(''error'', RStr text)], resp_Warnings = []\<rparr>"

definition IsError :: "response \<Rightarrow> bool" where
  "IsError r = (length (resp_Data r) = 1 \<and> map_of (resp_Data r) ''error'' \<noteq> None)"

subsection \<open>The environment and the state\<close>

text \<open>
  The collaborators that are not part of the sources.  None of them is written by the
  code modelled here, so they do not depend on the state.
  \<^item> \<open>fetchCertBySerial log prefix serial\<close>: the entry that the helper of this name finds
    for the serial under the prefix, in a storage with this log of writes (the helper is
    taken to read only);
  \<^item> \<open>storage_err op key\<close>: the error the storage driver returns for this operation on
    this key, if any;
  \<^item> \<open>range_order\<close>: the order in which a \<^verbatim>\<open>range\<close> over a Go map visits the given
    keys (Go leaves it unspecified);
  \<^item> \<open>genCRLId k\<close>: the \<open>k\<close>-th UUID that \<^verbatim>\<open>genCRLId()\<close> returns;
  \<^item> \<open>CreateRevocationList_err\<close>: the error of \<^verbatim>\<open>x509.CreateRevocationList\<close>, if any.
\<close>

record env =
  Tainted :: bool
  ReplicationPerformanceStandby :: bool
  ReplicationDRSecondary :: bool
  useLegacyBundleCaStorage :: bool
  legacyBundleShimID :: issuerID
  legacyCRLPath :: string
  storageLocalCRLConfig :: string
  defaultCrlConfig :: crlConfig
  listIssuers :: "error + issuerID list"
  fetchCertBundleByIssuerId :: "issuerID \<Rightarrow> error + (issuerEntry \<times> bytes option)"
  parseCABundle :: "bytes \<Rightarrow> error + certificate option"
  fetchCAInfoByIssuerId :: "issuerID \<Rightarrow> error + caInfoBundle"
  getRevocationConfig :: "error + crlConfig option"
  getIssuersConfig :: "error + issuerConfigEntry"
  serialFromCert :: "certificate \<Rightarrow> string"
  normalizeSerial :: "string \<Rightarrow> string"
  fetchCertBySerial :: "(string \<times> sval option) list \<Rightarrow> string \<Rightarrow> string \<Rightarrow> error + sval option"
  ParseCertificate :: "bytes \<Rightarrow> error + certificate"
  CheckSignatureFrom :: "certificate \<Rightarrow> certificate \<Rightarrow> bool"
  CreateRevocationList_err :: "RevocationList \<Rightarrow> caInfoBundle \<Rightarrow> string option"
  StorageEntryJSON_err :: "revocationInfo \<Rightarrow> bool"
  ParseDuration :: "string \<Rightarrow> error + duration"
  FormatRFC3339Nano :: "time \<Rightarrow> string"
  Now :: time
  genCRLId :: "nat \<Rightarrow> crlID"
  storage_err :: "storage_op \<Rightarrow> string \<Rightarrow> string option"
  range_order :: "string list \<Rightarrow> string list"

text \<open>
  The storage is the log of its writes, newest first: \<open>(k, Some v)\<close> is a \<^verbatim>\<open>Put\<close>,
  \<open>(k, None)\<close> a \<^verbatim>\<open>Delete\<close>.  The builder singleton \<^verbatim>\<open>crlBuilder\<close> is the three
  fields \<open>forceRebuild\<close>, \<open>dirty\<close> and \<open>config\<close> (its two locks have no content in a
  sequential model).  \<open>uuid_count\<close> counts the calls of \<^verbatim>\<open>genCRLId()\<close> so far.
\<close>

record state =
  storage :: "(string \<times> sval option) list"
  forceRebuild :: "32 word"
  dirty :: bool
  config :: crlConfig
  uuid_count :: nat

subsection \<open>Storage\<close>

fun log_get :: "(string \<times> sval option) list \<Rightarrow> string \<Rightarrow> sval option" where
  "log_get [] k = None"
| "log_get ((k', v) # rest) k = (if k' = k then v else log_get rest k)"

definition storage_Get :: "env \<Rightarrow> state \<Rightarrow> string \<Rightarrow> error + sval option" where
  "storage_Get env s k =
     (case storage_err env OpGet k of
        Some m \<Rightarrow> Inl (PlainError m)
      | None \<Rightarrow> Inr (log_get (storage s) k))"

definition storage_Put :: "env \<Rightarrow> string \<Rightarrow> sval \<Rightarrow> state \<Rightarrow> (error + unit) \<times> state" where
  "storage_Put env k v s =
     (case storage_err env OpPut k of
        Some m \<Rightarrow> (Inl (PlainError m), s)
      | None \<Rightarrow> (Inr (), s\<lparr>storage := (k, Some v) # storage s\<rparr>))"

definition storage_Delete :: "env \<Rightarrow> string \<Rightarrow> state \<Rightarrow> (error + unit) \<times> state" where
  "storage_Delete env k s =
     (case storage_err env OpDelete k of
        Some m \<Rightarrow> (Inl (PlainError m), s)
      | None \<Rightarrow> (Inr (), s\<lparr>storage := (k, None) # storage s\<rparr>))"

text \<open>
  \<^verbatim>\<open>List(prefix)\<close>: the keys under the prefix that hold a value, without the prefix,
  each once, in the order of their first write.
\<close>

definition storage_List :: "env \<Rightarrow> state \<Rightarrow> string \<Rightarrow> error + string list" where
  "storage_List env s p =
     (case storage_err env OpList p of
        Some m \<Rightarrow> Inl (PlainError m)
      | None \<Rightarrow>
          Inr (map (drop (length p))
                 (filter (\<lambda>k. take (length p) k = p \<and> log_get (storage s) k \<noteq> None)
                    (remdups (map fst (rev (storage s)))))))"

text \<open>\<^verbatim>\<open>range\<close> over a Go map: the entries, in the order the environment picks.\<close>

definition go_range :: "env \<Rightarrow> (string \<times> 'v) list \<Rightarrow> (string \<times> 'v) list" where
  "go_range env m =
     List.map_filter (\<lambda>k. map_option (Pair k) (map_of m k)) (range_order env (map fst m))"

subsection \<open>The CRL builder: configuration\<close>

definition markConfigDirty :: "state \<Rightarrow> state" where
  "markConfigDirty s = s\<lparr>dirty := True\<rparr>"

definition reloadConfigIfRequired :: "env \<Rightarrow> state \<Rightarrow> (error + unit) \<times> state" where
  "reloadConfigIfRequired env s =
     (if dirty s then
        (case getRevocationConfig env of
           Inl e \<Rightarrow> (Inl e, s)
         | Inr (Some c) \<Rightarrow> (Inr (), s\<lparr>config := c, dirty := False\<rparr>)
         | Inr None \<Rightarrow> (Inr (), s\<lparr>config := defaultCrlConfig env, dirty := False\<rparr>))
      else (Inr (), s))"

definition getConfigWithUpdate :: "env \<Rightarrow> state \<Rightarrow> (error + crlConfig) \<times> state" where
  "getConfigWithUpdate env s =
     (case reloadConfigIfRequired env s of
        (Inl e, s') \<Rightarrow> (Inl e, s')
      | (Inr u, s') \<Rightarrow> (Inr (config s'), s'))"

subsection \<open>Signing and persisting one CRL\<close>

definition revokedPath :: string where
  "revokedPath = ''revoked/''"

text \<open>The code from the label \<^verbatim>\<open>WRITE\<close> of \<^verbatim>\<open>buildCRL\<close> to its end.\<close>

definition buildCRL_WRITE ::
  "env \<Rightarrow> duration \<Rightarrow> issuerID \<Rightarrow> RevokedCertificate list \<Rightarrow> crlID \<Rightarrow> 64 word \<Rightarrow> state
     \<Rightarrow> (error + time) \<times> state" where
  "buildCRL_WRITE env crlLifetime thisIssuerId revokedCerts identifier crlNumber s =
     (case fetchCAInfoByIssuerId env thisIssuerId of
        Inl caErr \<Rightarrow>
          (if is_UserError caErr
           then (Inl (UserError (''could not fetch the CA certificate: '' @ err_string caErr)), s)
           else (Inl (InternalError (''error fetching CA certificate: '' @ err_string caErr)), s))
      | Inr signingBundle \<Rightarrow>
          (let now = Now env;
               nextUpdate = now + crlLifetime;
               revocationListTemplate =
                 \<lparr>RevokedCertificates = revokedCerts,
                  Number = crlNumber,
                  ThisUpdate = now,
                  NextUpdate = nextUpdate,
                  SignatureAlgorithm = ca_RevocationSigAlg signingBundle\<rparr>
           in case CreateRevocationList_err env revocationListTemplate signingBundle of
                Some m \<Rightarrow> (Inl (InternalError (''error creating new CRL: '' @ m)), s)
              | None \<Rightarrow>
                  (let writePath =
                         (if thisIssuerId = legacyBundleShimID env then legacyCRLPath env
                          else ''crls/'' @ identifier)
                   in case storage_Put env writePath
                             (SCRL revocationListTemplate (ca_Certificate signingBundle)) s of
                        (Inl e, s') \<Rightarrow>
                          (Inl (InternalError (''error storing CRL: '' @ err_string e)), s')
                      | (Inr u, s') \<Rightarrow> (Inr nextUpdate, s'))))"

definition buildCRL ::
  "env \<Rightarrow> crlConfig \<Rightarrow> bool \<Rightarrow> issuerID \<Rightarrow> RevokedCertificate list \<Rightarrow> crlID \<Rightarrow> 64 word \<Rightarrow> state
     \<Rightarrow> (error + time) \<times> state" where
  "buildCRL env crlInfo forceNew thisIssuerId revoked identifier crlNumber s =
     (case ParseDuration env (Expiry crlInfo) of
        Inl e \<Rightarrow> (Inl (InternalError (''error parsing CRL duration of '' @ Expiry crlInfo)), s)
      | Inr crlLifetime \<Rightarrow>
          (if Disable crlInfo then
             (if \<not> forceNew then (Inr 0, s)
              else buildCRL_WRITE env crlLifetime thisIssuerId [] identifier crlNumber s)
           else buildCRL_WRITE env crlLifetime thisIssuerId revoked identifier crlNumber s))"

subsection \<open>Associating revoked certificates with issuers\<close>

fun associate_scan :: "env \<Rightarrow> certificate \<Rightarrow> (issuerID \<times> certificate) list \<Rightarrow> issuerID option" where
  "associate_scan env revokedCert [] = None"
| "associate_scan env revokedCert ((issuerId, issuerCert) # rest) =
     (if RawIssuer revokedCert = RawSubject issuerCert \<and> CheckSignatureFrom env revokedCert issuerCert
      then Some issuerId
      else associate_scan env revokedCert rest)"

text \<open>Returns the (possibly updated) \<^verbatim>\<open>*revInfo\<close> together with the boolean result.\<close>

definition associateRevokedCertWithIsssuer ::
  "env \<Rightarrow> revocationInfo \<Rightarrow> certificate \<Rightarrow> (issuerID \<times> certificate) list
     \<Rightarrow> revocationInfo \<times> bool" where
  "associateRevokedCertWithIsssuer env revInfo revokedCert issuerIDCertMap =
     (case associate_scan env revokedCert (go_range env issuerIDCertMap) of
        Some issuerId \<Rightarrow> (revInfo\<lparr>CertificateIssuer := issuerId\<rparr>, True)
      | None \<Rightarrow> (revInfo, False))"

text \<open>\<^verbatim>\<open>m[k] = append(m[k], x)\<close> on a Go map of slices.\<close>

definition map_append :: "string \<Rightarrow> 'a \<Rightarrow> (string \<times> 'a list) list \<Rightarrow> (string \<times> 'a list) list" where
  "map_append k x m = AList.update k ((case map_of m k of None \<Rightarrow> [] | Some xs \<Rightarrow> xs) @ [x]) m"

definition DecodeJSON_revocationInfo :: "sval \<Rightarrow> error + revocationInfo" where
  "DecodeJSON_revocationInfo v =
     (case v of SRevInfo r \<Rightarrow> Inr r | _ \<Rightarrow> Inl (PlainError ''invalid JSON''))"

definition build_issuerSerialCertMap ::
  "env \<Rightarrow> (issuerID \<times> certificate) list \<Rightarrow> (string \<times> certificate list) list" where
  "build_issuerSerialCertMap env issuerIDCertMap =
     fold (\<lambda>(i, cert) m. map_append (serialFromCert env cert) cert m)
       (go_range env issuerIDCertMap) []"

text \<open>One round of the loop over the revoked serials in \<^verbatim>\<open>getRevokedCertEntries\<close>.\<close>

definition getRevokedCertEntries_step ::
  "env \<Rightarrow> (issuerID \<times> certificate) list \<Rightarrow> (string \<times> certificate list) list \<Rightarrow> string
     \<Rightarrow> RevokedCertificate list \<times> (issuerID \<times> RevokedCertificate list) list \<Rightarrow> state
     \<Rightarrow> (error + RevokedCertificate list \<times> (issuerID \<times> RevokedCertificate list) list) \<times> state" where
  "getRevokedCertEntries_step env issuerIDCertMap issuerSerialCertMap serial acc s =
     (case storage_Get env s (revokedPath @ serial) of
        Inl err \<Rightarrow>
          (Inl (InternalError (''unable to fetch revoked cert with serial '' @ serial @ '': ''
                               @ err_string err)), s)
      | Inr None \<Rightarrow>
          (Inl (InternalError (''revoked certificate entry for serial '' @ serial @ '' is nil'')), s)
      | Inr (Some v) \<Rightarrow>
          (if v = SBytes [] then
             (Inl (InternalError ''found revoked serial but actual certificate is empty''), s)
           else
             (case DecodeJSON_revocationInfo v of
                Inl err \<Rightarrow>
                  (Inl (InternalError (''error decoding revocation entry for serial '' @ serial
                                       @ '': '' @ err_string err)), s)
              | Inr revInfo \<Rightarrow>
                  (case ParseCertificate env (CertificateBytes revInfo) of
                     Inl err \<Rightarrow>
                       (Inl (InternalError (''unable to parse stored revoked certificate with serial ''
                                            @ serial @ '': '' @ err_string err)), s)
                   | Inr revokedCert \<Rightarrow>
                       (if (case map_of issuerSerialCertMap (serialFromCert env revokedCert) of
                              Some candidates \<Rightarrow>
                                list_ex (\<lambda>candidate. Raw candidate = Raw revokedCert) candidates
                            | None \<Rightarrow> False)
                        then (Inr acc, s)
                        else
                          (let newRevCert =
                                 \<lparr>rc_SerialNumber = SerialNumber revokedCert,
                                  rc_RevocationTime =
                                    (if \<not> IsZero (RevocationTimeUTC revInfo)
                                     then RevocationTimeUTC revInfo
                                     else time_Unix (RevocationTime revInfo))\<rparr>
                           in if length (CertificateIssuer revInfo) > 0
                                 \<and> map_of issuerIDCertMap (CertificateIssuer revInfo) \<noteq> None
                              then (Inr (fst acc,
                                         map_append (CertificateIssuer revInfo) newRevCert (snd acc)), s)
                              else
                                (case associateRevokedCertWithIsssuer env revInfo revokedCert
                                        issuerIDCertMap of
                                   (revInfo', False) \<Rightarrow> (Inr (fst acc @ [newRevCert], snd acc), s)
                                 | (revInfo', True) \<Rightarrow>
                                     (if StorageEntryJSON_err env revInfo' then
                                        (Inl (PlainError
                                               (''error creating revocation entry for existing cert: ''
                                                @ serial)), s)
                                      else
                                        (case storage_Put env (revokedPath @ serial)
                                                (SRevInfo revInfo') s of
                                           (Inl e, s') \<Rightarrow>
                                             (Inl (PlainError
                                                    (''error updating revoked certificate at existing location: ''
                                                     @ serial)), s')
                                         | (Inr u, s') \<Rightarrow>
                                             (Inr (fst acc,
                                                   map_append (CertificateIssuer revInfo')
                                                     newRevCert (snd acc)), s'))))))))))"

fun getRevokedCertEntries_loop ::
  "env \<Rightarrow> (issuerID \<times> certificate) list \<Rightarrow> (string \<times> certificate list) list \<Rightarrow> string list
     \<Rightarrow> RevokedCertificate list \<times> (issuerID \<times> RevokedCertificate list) list \<Rightarrow> state
     \<Rightarrow> (error + RevokedCertificate list \<times> (issuerID \<times> RevokedCertificate list) list) \<times> state" where
  "getRevokedCertEntries_loop env icm iscm [] acc s = (Inr acc, s)"
| "getRevokedCertEntries_loop env icm iscm (serial # rest) acc s =
     (case getRevokedCertEntries_step env icm iscm serial acc s of
        (Inl e, s') \<Rightarrow> (Inl e, s')
      | (Inr acc', s') \<Rightarrow> getRevokedCertEntries_loop env icm iscm rest acc' s')"

definition getRevokedCertEntries ::
  "env \<Rightarrow> (issuerID \<times> certificate) list \<Rightarrow> state
     \<Rightarrow> (error + RevokedCertificate list \<times> (issuerID \<times> RevokedCertificate list) list) \<times> state" where
  "getRevokedCertEntries env issuerIDCertMap s =
     (case storage_List env s revokedPath of
        Inl err \<Rightarrow>
          (Inl (InternalError (''error fetching list of revoked certs: '' @ err_string err)), s)
      | Inr revokedSerials \<Rightarrow>
          getRevokedCertEntries_loop env issuerIDCertMap
            (build_issuerSerialCertMap env issuerIDCertMap) revokedSerials ([], []) s)"

subsection \<open>Revoked issuers\<close>

fun augmentWithRevokedIssuers_inner ::
  "env \<Rightarrow> issuerID \<Rightarrow> certificate \<Rightarrow> RevokedCertificate \<Rightarrow> (issuerID \<times> certificate) list
     \<Rightarrow> (issuerID \<times> issuerEntry) list \<Rightarrow> (issuerID \<times> RevokedCertificate list) list
     \<Rightarrow> error + (issuerID \<times> RevokedCertificate list) list" where
  "augmentWithRevokedIssuers_inner env ourIssuerID ourCert ourRevCert icm [] rcm = Inr rcm"
| "augmentWithRevokedIssuers_inner env ourIssuerID ourCert ourRevCert icm
     ((otherIssuerID, otherEntry) # rest) rcm =
     (if otherIssuerID = ourIssuerID then
        augmentWithRevokedIssuers_inner env ourIssuerID ourCert ourRevCert icm rest rcm
      else
        (case map_of icm otherIssuerID of
           None \<Rightarrow> Inl (Panic ''nil pointer dereference'')
         | Some otherCert \<Rightarrow>
             augmentWithRevokedIssuers_inner env ourIssuerID ourCert ourRevCert icm rest
               (if CheckSignatureFrom env ourCert otherCert
                then map_append otherIssuerID ourRevCert rcm else rcm)))"

fun augmentWithRevokedIssuers_outer ::
  "env \<Rightarrow> (issuerID \<times> issuerEntry) list \<Rightarrow> (issuerID \<times> certificate) list
     \<Rightarrow> (issuerID \<times> issuerEntry) list \<Rightarrow> (issuerID \<times> RevokedCertificate list) list
     \<Rightarrow> error + (issuerID \<times> RevokedCertificate list) list" where
  "augmentWithRevokedIssuers_outer env iem icm [] rcm = Inr rcm"
| "augmentWithRevokedIssuers_outer env iem icm ((ourIssuerID, ourIssuer) # rest) rcm =
     (if \<not> Revoked ourIssuer then augmentWithRevokedIssuers_outer env iem icm rest rcm
      else
        (case map_of icm ourIssuerID of
           None \<Rightarrow> Inl (Panic ''nil pointer dereference'')
         | Some ourCert \<Rightarrow>
             (case augmentWithRevokedIssuers_inner env ourIssuerID ourCert
                     \<lparr>rc_SerialNumber = SerialNumber ourCert,
                      rc_RevocationTime = issuer_RevocationTimeUTC ourIssuer\<rparr>
                     icm (go_range env iem) rcm of
                Inl e \<Rightarrow> Inl e
              | Inr rcm' \<Rightarrow> augmentWithRevokedIssuers_outer env iem icm rest rcm')))"

definition augmentWithRevokedIssuers ::
  "env \<Rightarrow> (issuerID \<times> issuerEntry) list \<Rightarrow> (issuerID \<times> certificate) list
     \<Rightarrow> (issuerID \<times> RevokedCertificate list) list
     \<Rightarrow> error + (issuerID \<times> RevokedCertificate list) list" where
  "augmentWithRevokedIssuers env issuerIDEntryMap issuerIDCertMap revokedCertsMap =
     augmentWithRevokedIssuers_outer env issuerIDEntryMap issuerIDCertMap
       (go_range env issuerIDEntryMap) revokedCertsMap"

subsection \<open>The cluster-local CRL index\<close>

text \<open>
  Modelled from the spec: \<^verbatim>\<open>getLocalCRLConfig\<close> and \<^verbatim>\<open>setLocalCRLConfig\<close> are not among the
  sources.  The spec (section 6) has the index as a persisted singleton, the JSON of
  \<^verbatim>\<open>ClusterLocalCRLIndex\<close>; before the first build there is none, and the index read is
  the empty one.  The key of the singleton is the parameter \<open>storageLocalCRLConfig\<close>.
\<close>

definition getLocalCRLConfig :: "env \<Rightarrow> state \<Rightarrow> error + localCRLConfigEntry" where
  "getLocalCRLConfig env s =
     (case storage_Get env s (storageLocalCRLConfig env) of
        Inl e \<Rightarrow> Inl e
      | Inr None \<Rightarrow> Inr \<lparr>IssuerIDCRLMap = [], CRLNumberMap = [], CRLExpirationMap = []\<rparr>
      | Inr (Some (SLocalCRLConfig c)) \<Rightarrow> Inr c
      | Inr (Some v) \<Rightarrow>
          Inl (InternalError ''unable to decode cluster-local CRL configuration''))"

definition setLocalCRLConfig :: "env \<Rightarrow> localCRLConfigEntry \<Rightarrow> state \<Rightarrow> (error + unit) \<times> state" where
  "setLocalCRLConfig env mapping s =
     storage_Put env (storageLocalCRLConfig env) (SLocalCRLConfig mapping) s"

subsection \<open>Building all CRLs\<close>

text \<open>A missing key of a Go map reads as the zero value.\<close>

definition number_of :: "(crlID \<times> 64 word) list \<Rightarrow> crlID \<Rightarrow> 64 word" where
  "number_of m k = (case map_of m k of None \<Rightarrow> 0 | Some n \<Rightarrow> n)"

text \<open>
  The first loop of \<^verbatim>\<open>buildCRLs\<close>, over the issuers: it fills \<^verbatim>\<open>issuerIDEntryMap\<close>,
  \<^verbatim>\<open>issuerIDCertMap\<close> and \<^verbatim>\<open>keySubjectIssuersMap\<close>.
\<close>

fun buildCRLs_issuers ::
  "env \<Rightarrow> issuerID list
     \<Rightarrow> (issuerID \<times> issuerEntry) list \<times> (issuerID \<times> certificate) list
        \<times> (keyID \<times> (string \<times> issuerID list) list) list
     \<Rightarrow> error + (issuerID \<times> issuerEntry) list \<times> (issuerID \<times> certificate) list
        \<times> (keyID \<times> (string \<times> issuerID list) list) list" where
  "buildCRLs_issuers env [] acc = Inr acc"
| "buildCRLs_issuers env (issuer # rest) (iem, icm, ksm) =
     (case fetchCertBundleByIssuerId env issuer of
        Inl err \<Rightarrow>
          Inl (Errorf (''error building CRLs: unable to fetch specified issuer ('' @ issuer @ ''): '') err)
      | Inr (thisEntry, bundle) \<Rightarrow>
          (if length (KeyID thisEntry) = 0 then buildCRLs_issuers env rest (iem, icm, ksm)
           else if \<not> CRLSigningUsage thisEntry then buildCRLs_issuers env rest (iem, icm, ksm)
           else
             (case GetCertificate thisEntry of
                Inl err \<Rightarrow>
                  Inl (Errorf (''error building CRLs: unable to parse issuer ('' @ issuer
                               @ '')'s certificate: '') err)
              | Inr thisCert \<Rightarrow>
                  (let subject = RawSubject thisCert;
                       ksm1 = (if map_of ksm (KeyID thisEntry) = None
                               then AList.update (KeyID thisEntry) [] ksm else ksm);
                       inner = (case map_of ksm1 (KeyID thisEntry) of None \<Rightarrow> [] | Some m \<Rightarrow> m)
                   in buildCRLs_issuers env rest
                        (AList.update issuer thisEntry iem,
                         AList.update issuer thisCert icm,
                         AList.update (KeyID thisEntry) (map_append subject issuer inner) ksm1)))))"

text \<open>
  The loop over the members of one equivalence class: it collects the revoked
  certificates, picks the representative and resolves the CRL-ID.  The accumulator is
  \<^verbatim>\<open>(revokedCerts, representative, crlIdentifier, crlIdIssuer)\<close>.
\<close>

fun buildCRLs_members ::
  "issuerID \<Rightarrow> RevokedCertificate list \<Rightarrow> (issuerID \<times> RevokedCertificate list) list
     \<Rightarrow> (issuerID \<times> crlID) list \<Rightarrow> issuerID list
     \<Rightarrow> RevokedCertificate list \<times> issuerID \<times> crlID \<times> issuerID
     \<Rightarrow> error + RevokedCertificate list \<times> issuerID \<times> crlID \<times> issuerID" where
  "buildCRLs_members dflt unassignedCerts rcm idmap [] acc = Inr acc"
| "buildCRLs_members dflt unassignedCerts rcm idmap (issuerId # rest)
     (revokedCerts, representative, crlIdentifier, crlIdIssuer) =
     (let revokedCerts1 =
            (if issuerId = dflt \<and> length unassignedCerts > 0
             then revokedCerts @ unassignedCerts else revokedCerts);
          representative1 = (if issuerId = dflt then issuerId else representative);
          revokedCerts2 =
            (case map_of rcm issuerId of
               Some thisRevoked \<Rightarrow>
                 (if length thisRevoked > 0 then revokedCerts1 @ thisRevoked else revokedCerts1)
             | None \<Rightarrow> revokedCerts1)
      in case map_of idmap issuerId of
           None \<Rightarrow>
             buildCRLs_members dflt unassignedCerts rcm idmap rest
               (revokedCerts2, representative1, crlIdentifier, crlIdIssuer)
         | Some thisCRLId \<Rightarrow>
             (if length thisCRLId > 0 then
                (if length crlIdentifier > 0 \<and> crlIdentifier \<noteq> thisCRLId then
                   Inl (PlainError
                          (''error building CRLs: two issuers with same keys/subjects (''
                           @ issuerId @ '' vs '' @ crlIdIssuer
                           @ '') have different internal CRL IDs: '' @ thisCRLId @ '' vs ''
                           @ crlIdentifier))
                 else
                   buildCRLs_members dflt unassignedCerts rcm idmap rest
                     (revokedCerts2, representative1, thisCRLId, issuerId))
              else
                buildCRLs_members dflt unassignedCerts rcm idmap rest
                  (revokedCerts2, representative1, crlIdentifier, crlIdIssuer)))"

text \<open>The body of the loop over the equivalence classes, for one class \<^verbatim>\<open>issuersSet\<close>.\<close>

definition buildCRLs_class ::
  "env \<Rightarrow> crlConfig \<Rightarrow> bool \<Rightarrow> issuerID \<Rightarrow> RevokedCertificate list
     \<Rightarrow> (issuerID \<times> RevokedCertificate list) list \<Rightarrow> issuerID list
     \<Rightarrow> localCRLConfigEntry \<Rightarrow> state \<Rightarrow> (error + localCRLConfigEntry) \<times> state" where
  "buildCRLs_class env globalCRLConfig forceNew dflt unassignedCerts rcm issuersSet crlConfig s =
     (case issuersSet of
        [] \<Rightarrow> (Inr crlConfig, s)
      | first # others \<Rightarrow>
          (case buildCRLs_members dflt unassignedCerts rcm (IssuerIDCRLMap crlConfig) issuersSet
                  ([], first, [], []) of
             Inl e \<Rightarrow> (Inl e, s)
           | Inr (revokedCerts, representative, crlIdentifier0, crlIdIssuer) \<Rightarrow>
               (let fresh = (length crlIdentifier0 = 0);
                    crlIdentifier = (if fresh then genCRLId env (uuid_count s) else crlIdentifier0);
                    s1 = (if fresh then s\<lparr>uuid_count := Suc (uuid_count s)\<rparr> else s);
                    numbers1 = (if fresh then AList.update crlIdentifier 1 (CRLNumberMap crlConfig)
                                else CRLNumberMap crlConfig);
                    idmap1 = fold (\<lambda>issuerId m. AList.update issuerId crlIdentifier m) issuersSet
                               (IssuerIDCRLMap crlConfig);
                    crlNumber = number_of numbers1 crlIdentifier;
                    numbers2 = AList.update crlIdentifier (crlNumber + 1) numbers1
                in case buildCRL env globalCRLConfig forceNew representative revokedCerts
                          crlIdentifier crlNumber s1 of
                     (Inl err, s2) \<Rightarrow>
                       (Inl (Errorf (''error building CRLs: unable to build CRL for issuer (''
                                     @ representative @ ''): '') err), s2)
                   | (Inr nextUpdate, s2) \<Rightarrow>
                       (Inr \<lparr>IssuerIDCRLMap = idmap1,
                             CRLNumberMap = numbers2,
                             CRLExpirationMap =
                               AList.update crlIdentifier nextUpdate (CRLExpirationMap crlConfig)\<rparr>,
                        s2))))"

fun buildCRLs_classes ::
  "env \<Rightarrow> crlConfig \<Rightarrow> bool \<Rightarrow> issuerID \<Rightarrow> RevokedCertificate list
     \<Rightarrow> (issuerID \<times> RevokedCertificate list) list \<Rightarrow> issuerID list list
     \<Rightarrow> localCRLConfigEntry \<Rightarrow> state \<Rightarrow> (error + localCRLConfigEntry) \<times> state" where
  "buildCRLs_classes env g forceNew dflt unassignedCerts rcm [] crlConfig s = (Inr crlConfig, s)"
| "buildCRLs_classes env g forceNew dflt unassignedCerts rcm (issuersSet # rest) crlConfig s =
     (case buildCRLs_class env g forceNew dflt unassignedCerts rcm issuersSet crlConfig s of
        (Inl e, s') \<Rightarrow> (Inl e, s')
      | (Inr crlConfig', s') \<Rightarrow>
          buildCRLs_classes env g forceNew dflt unassignedCerts rcm rest crlConfig' s')"

text \<open>
  The nested \<^verbatim>\<open>range\<close> over \<^verbatim>\<open>keySubjectIssuersMap\<close> visits these classes, in this order.
\<close>

definition equivalence_classes ::
  "env \<Rightarrow> (keyID \<times> (string \<times> issuerID list) list) list \<Rightarrow> issuerID list list" where
  "equivalence_classes env ksm =
     concat (map (\<lambda>(k, subjectIssuersMap). map snd (go_range env subjectIssuersMap))
               (go_range env ksm))"

text \<open>The first clean-up loop: drop the index entries of issuers that are gone.\<close>

definition prune_IssuerIDCRLMap ::
  "env \<Rightarrow> issuerID list \<Rightarrow> (issuerID \<times> crlID) list \<Rightarrow> (issuerID \<times> crlID) list" where
  "prune_IssuerIDCRLMap env issuers idmap =
     fold (\<lambda>(mapIssuerId, c) m.
             if list_ex (\<lambda>listedIssuerId. mapIssuerId = listedIssuerId) issuers then m
             else AList.delete mapIssuerId m)
       (go_range env idmap) idmap"

text \<open>The second clean-up loop: delete the CRL of every CRL-ID without an issuer.\<close>

fun delete_unreferenced ::
  "env \<Rightarrow> (issuerID \<times> crlID) list \<Rightarrow> (crlID \<times> 64 word) list \<Rightarrow> state
     \<Rightarrow> (error + unit) \<times> state" where
  "delete_unreferenced env idmap [] s = (Inr (), s)"
| "delete_unreferenced env idmap ((crlId, n) # rest) s =
     (if list_ex (\<lambda>(i, remainingCRL). remainingCRL = crlId) (go_range env idmap)
      then delete_unreferenced env idmap rest s
      else
        (case storage_Delete env (''crls/'' @ crlId) s of
           (Inl err, s') \<Rightarrow>
             (Inl (Errorf ''error building CRLs: unable to clean up deleted issuers' CRL: '' err), s')
         | (Inr u, s') \<Rightarrow> delete_unreferenced env idmap rest s'))"

text \<open>\<^verbatim>\<open>buildCRLs\<close> after the early return for a disabled CRL.\<close>

definition buildCRLs_run :: "env \<Rightarrow> crlConfig \<Rightarrow> bool \<Rightarrow> state \<Rightarrow> (error + unit) \<times> state" where
  "buildCRLs_run env globalCRLConfig forceNew s =
     (case (if \<not> useLegacyBundleCaStorage env then
              (case listIssuers env of
                 Inl err \<Rightarrow> Inl (Errorf ''error building CRL: while listing issuers: '' err)
               | Inr issuers \<Rightarrow> Inr (issuers, False))
            else Inr ([legacyBundleShimID env], True)) of
        Inl e \<Rightarrow> (Inl e, s)
      | Inr (issuers, wasLegacy) \<Rightarrow>
     (case getIssuersConfig env of
        Inl err \<Rightarrow>
          (Inl (Errorf ''error building CRLs: while getting the default config: '' err), s)
      | Inr issuersConfig \<Rightarrow>
     (case buildCRLs_issuers env issuers ([], [], []) of
        Inl e \<Rightarrow> (Inl e, s)
      | Inr (issuerIDEntryMap, issuerIDCertMap, keySubjectIssuersMap) \<Rightarrow>
     (case getLocalCRLConfig env s of
        Inl err \<Rightarrow>
          (Inl (Errorf ''error building CRLs: unable to fetch cluster-local CRL configuration: '' err), s)
      | Inr crlConfig \<Rightarrow>
     (case getRevokedCertEntries env issuerIDCertMap s of
        (Inl err, s1) \<Rightarrow>
          (Inl (Errorf ''error building CRLs: unable to get revoked certificate entries: '' err), s1)
      | (Inr (unassignedCerts, revokedCertsMap0), s1) \<Rightarrow>
     (case augmentWithRevokedIssuers env issuerIDEntryMap issuerIDCertMap revokedCertsMap0 of
        Inl err \<Rightarrow>
          (Inl (Errorf ''error building CRLs: unable to parse revoked issuers: '' err), s1)
      | Inr revokedCertsMap \<Rightarrow>
     (case buildCRLs_classes env globalCRLConfig forceNew (DefaultIssuerId issuersConfig)
             unassignedCerts revokedCertsMap (equivalence_classes env keySubjectIssuersMap)
             crlConfig s1 of
        (Inl e, s2) \<Rightarrow> (Inl e, s2)
      | (Inr crlConfig1, s2) \<Rightarrow>
     (let crlConfig2 =
            crlConfig1\<lparr>IssuerIDCRLMap := prune_IssuerIDCRLMap env issuers (IssuerIDCRLMap crlConfig1)\<rparr>
      in case delete_unreferenced env (IssuerIDCRLMap crlConfig2)
                (go_range env (CRLNumberMap crlConfig2)) s2 of
           (Inl e, s3) \<Rightarrow> (Inl e, s3)
         | (Inr u, s3) \<Rightarrow>
             (if \<not> wasLegacy then
                (case setLocalCRLConfig env crlConfig2 s3 of
                   (Inl err, s4) \<Rightarrow>
                     (Inl (Errorf ''error building CRLs: unable to persist updated cluster-local CRL config: '' err), s4)
                 | (Inr u', s4) \<Rightarrow> (Inr (), s4))
              else (Inr (), s3))))))))))"

definition buildCRLs :: "env \<Rightarrow> bool \<Rightarrow> state \<Rightarrow> (error + unit) \<times> state" where
  "buildCRLs env forceNew s =
     (case getConfigWithUpdate env s of
        (Inl err, s') \<Rightarrow> (Inl (Errorf ''error building CRL: while updating config: '' err), s')
      | (Inr globalCRLConfig, s') \<Rightarrow>
          (if Disable globalCRLConfig \<and> \<not> forceNew then (Inr (), s')
           else buildCRLs_run env globalCRLConfig forceNew s'))"

subsection \<open>The CRL builder: rebuilding\<close>

definition CompareAndSwapUint32 :: "32 word \<Rightarrow> 32 word \<Rightarrow> 32 word \<Rightarrow> 32 word" where
  "CompareAndSwapUint32 v old new = (if v = old then new else v)"

definition ignoreForceFlag :: bool where
  "ignoreForceFlag = True"

definition enforceForceFlag :: bool where
  "enforceForceFlag = False"

definition requestRebuildIfActiveNode :: "env \<Rightarrow> state \<Rightarrow> state" where
  "requestRebuildIfActiveNode env s =
     (if ReplicationPerformanceStandby env \<or> ReplicationDRSecondary env then s
      else s\<lparr>forceRebuild := CompareAndSwapUint32 (forceRebuild s) 0 1\<rparr>)"

text \<open>
  \<^verbatim>\<open>checkForAutoRebuild\<close>.  The index read by \<open>getLocalCRLConfig\<close> is never \<^verbatim>\<open>nil\<close>, so the
  branch of the source for a \<^verbatim>\<open>nil\<close> index is not taken.
\<close>

definition checkForAutoRebuild :: "env \<Rightarrow> state \<Rightarrow> (error + unit) \<times> state" where
  "checkForAutoRebuild env s =
     (case getConfigWithUpdate env s of
        (Inl err, s1) \<Rightarrow> (Inl err, s1)
      | (Inr cfg, s1) \<Rightarrow>
          (if Disable cfg \<or> \<not> AutoRebuild cfg \<or> forceRebuild s1 = 1 then (Inr (), s1)
           else
             (case getLocalCRLConfig env s1 of
                Inl err \<Rightarrow>
                  (Inl (Errorf ''error checking for auto-rebuild status: unable to fetch cluster-local CRL configuration: '' err), s1)
              | Inr crlConfig \<Rightarrow>
                  (if length (CRLExpirationMap crlConfig) = 0 then
                     (Inr (), s1\<lparr>forceRebuild := CompareAndSwapUint32 (forceRebuild s1) 0 1\<rparr>)
                   else
                     (case (case ParseDuration env (AutoRebuildGracePeriod cfg) of
                              Inr period \<Rightarrow> Inr period
                            | Inl err \<Rightarrow>
                                (case ParseDuration env
                                        (AutoRebuildGracePeriod (defaultCrlConfig env)) of
                                   Inr defaultPeriod \<Rightarrow> Inr defaultPeriod
                                 | Inl defaultErr \<Rightarrow>
                                     Inl (PlainError
                                            (''error checking for auto-rebuild status: unable to parse duration from both config's grace period (''
                                             @ AutoRebuildGracePeriod cfg
                                             @ '') and default grace period (''
                                             @ AutoRebuildGracePeriod (defaultCrlConfig env)
                                             @ ''):'' @ [CHR 0x0A] @ ''- config: '' @ err_string err
                                             @ [CHR 0x0A] @ ''- default: '' @ err_string defaultErr
                                             @ [CHR 0x0A])))) of
                        Inl e \<Rightarrow> (Inl e, s1)
                      | Inr period \<Rightarrow>
                          (if list_ex (\<lambda>(c, value). IsZero value \<or> Now env > value - period)
                                (go_range env (CRLExpirationMap crlConfig))
                           then (Inr (), s1\<lparr>forceRebuild :=
                                              CompareAndSwapUint32 (forceRebuild s1) 0 1\<rparr>)
                           else (Inr (), s1)))))))"

definition doRebuild :: "env \<Rightarrow> bool \<Rightarrow> bool \<Rightarrow> state \<Rightarrow> (error + unit) \<times> state" where
  "doRebuild env forceNew ignoreFlag s =
     (let forceBuildFlag = forceRebuild s
      in if forceBuildFlag = 1 \<or> ignoreFlag then
           (let s1 = s\<lparr>forceRebuild := CompareAndSwapUint32 (forceRebuild s) 1 0\<rparr>;
                myForceNew = (forceBuildFlag = 1 \<or> forceNew)
            in buildCRLs env myForceNew s1)
         else (Inr (), s))"

definition rebuildIfForced :: "env \<Rightarrow> state \<Rightarrow> (error + unit) \<times> state" where
  "rebuildIfForced env s =
     (if forceRebuild s = 1 then doRebuild env True enforceForceFlag s else (Inr (), s))"

definition rebuild :: "env \<Rightarrow> bool \<Rightarrow> state \<Rightarrow> (error + unit) \<times> state" where
  "rebuild env forceNew s = doRebuild env forceNew ignoreForceFlag s"

subsection \<open>Revoking a certificate\<close>

text \<open>\<^verbatim>\<open>strings.ToLower\<close> on the ASCII letters, and \<^verbatim>\<open>strings.ReplaceAll(s, "-", ":")\<close>.\<close>

definition ToLower :: "string \<Rightarrow> string" where
  "ToLower str =
     map (\<lambda>c. if 65 \<le> (of_char c :: nat) \<and> (of_char c :: nat) \<le> 90
              then char_of ((of_char c :: nat) + 32) else c) str"

definition ReplaceAll_hyphen_colon :: "string \<Rightarrow> string" where
  "ReplaceAll_hyphen_colon str = map (\<lambda>c. if c = CHR ''-'' then CHR '':'' else c) str"

text \<open>
  The loop of \<^verbatim>\<open>revokeCert\<close> over the issuers.  \<open>Inl\<close> is an early return of
  \<^verbatim>\<open>revokeCert\<close> with that result, \<open>Inr\<close> the filled \<^verbatim>\<open>issuerIDCertMap\<close>.
\<close>

fun revokeCert_issuers ::
  "env \<Rightarrow> string \<Rightarrow> issuerID list \<Rightarrow> (issuerID \<times> certificate) list
     \<Rightarrow> (error + response option) + (issuerID \<times> certificate) list" where
  "revokeCert_issuers env serial [] issuerIDCertMap = Inr issuerIDCertMap"
| "revokeCert_issuers env serial (issuer # rest) issuerIDCertMap =
     (case fetchCertBundleByIssuerId env issuer of
        Inl caErr \<Rightarrow>
          (if is_UserError caErr then
             Inl (Inr (Some (ErrorResponse
                    (''could not fetch the CA certificate for issuer id '' @ issuer @ '': ''
                     @ err_string caErr))))
           else
             Inl (Inl (Errorf (''error fetching CA certificate for issuer id '' @ issuer @ '': '')
                         caErr)))
      | Inr (entry, None) \<Rightarrow>
          Inl (Inl (PlainError (''faulty reference: '' @ issuer @ '' - CA info not found'')))
      | Inr (entry, Some bundle) \<Rightarrow>
          (case parseCABundle env bundle of
             Inl err \<Rightarrow> Inl (Inl (InternalError (err_string err)))
           | Inr None \<Rightarrow>
               Inl (Inl (InternalError ''stored CA information not able to be parsed''))
           | Inr (Some parsedCertificate) \<Rightarrow>
               (let colonSerial = ReplaceAll_hyphen_colon (ToLower serial)
                in if colonSerial = serialFromCert env parsedCertificate then
                     Inl (Inr (Some (ErrorResponse
                            (''adding issuer (id: '' @ issuer @ '') to its own CRL is not allowed''))))
                   else
                     revokeCert_issuers env serial rest
                       (AList.update issuer parsedCertificate issuerIDCertMap))))"

text \<open>
  The block \<^verbatim>\<open>if !alreadyRevoked { ... }\<close> of \<^verbatim>\<open>revokeCert\<close>.  \<open>Inl\<close> is an early return of
  \<^verbatim>\<open>revokeCert\<close>, \<open>Inr\<close> the \<^verbatim>\<open>revInfo\<close> that was stored.
\<close>

definition revokeCert_store ::
  "env \<Rightarrow> string \<Rightarrow> bool \<Rightarrow> (issuerID \<times> certificate) list \<Rightarrow> revocationInfo \<Rightarrow> state
     \<Rightarrow> ((error + response option) + revocationInfo) \<times> state" where
  "revokeCert_store env serial fromLease issuerIDCertMap revInfo s =
     (case fetchCertBySerial env (storage s) ''certs/'' serial of
        Inl err \<Rightarrow>
          (if is_UserError err then (Inl (Inr (Some (ErrorResponse (err_string err)))), s)
           else (Inl (Inl err), s))
      | Inr None \<Rightarrow>
          (if fromLease then (Inl (Inr None), s)
           else (Inl (Inr (Some (ErrorResponse
                         (''certificate with serial '' @ serial @ '' not found'')))), s))
      | Inr (Some certEntry) \<Rightarrow>
          (case (case certEntry of
                   SBytes b \<Rightarrow> map_sum id (Pair b) (ParseCertificate env b)
                 | _ \<Rightarrow> Inl (PlainError ''x509: malformed certificate'')) of
             Inl err \<Rightarrow> (Inl (Inl (Errorf ''error parsing certificate: '' err)), s)
           | Inr (certEntry_Value, cert) \<Rightarrow>
               (if NotAfter cert < Now env + 2 * Second then
                  (Inl (Inr (Some
                     \<lparr>resp_Data = [],
                      resp_Warnings =
                        [''certificate with serial '' @ serial
                         @ '' already expired; refusing to add to CRL'']\<rparr>)), s)
                else if IsCA cert \<and> fromLease then (Inl (Inr None), s)
                else
                  (let currTime = Now env;
                       revInfo1 = revInfo\<lparr>CertificateBytes := certEntry_Value,
                                          RevocationTime := Unix currTime,
                                          RevocationTimeUTC := currTime\<rparr>;
                       revInfo2 = fst (associateRevokedCertWithIsssuer env revInfo1 cert
                                         issuerIDCertMap)
                   in if StorageEntryJSON_err env revInfo2 then
                        (Inl (Inl (PlainError ''error creating revocation entry'')), s)
                      else
                        (case storage_Put env (revokedPath @ normalizeSerial env serial)
                                (SRevInfo revInfo2) s of
                           (Inl e, s') \<Rightarrow>
                             (Inl (Inl (PlainError
                                     ''error saving revoked certificate to new location'')), s')
                         | (Inr u, s') \<Rightarrow> (Inr revInfo2, s'))))))"

text \<open>The end of \<^verbatim>\<open>revokeCert\<close>, from the fetch of the configuration on.\<close>

definition revokeCert_respond ::
  "env \<Rightarrow> revocationInfo \<Rightarrow> state \<Rightarrow> (error + response option) \<times> state" where
  "revokeCert_respond env revInfo s =
     (case getConfigWithUpdate env s of
        (Inl err, s1) \<Rightarrow>
          (Inl (Errorf ''error building CRL: while updating config: '' err), s1)
      | (Inr cfg, s1) \<Rightarrow>
          (case (if \<not> AutoRebuild cfg then rebuild env False s1 else (Inr (), s1)) of
             (Inl crlErr, s2) \<Rightarrow>
               (if is_UserError crlErr then
                  (Inr (Some (ErrorResponse (''Error during CRL building: '' @ err_string crlErr))), s2)
                else (Inl (Errorf ''error encountered during CRL building: '' crlErr), s2))
           | (Inr u, s2) \<Rightarrow>
               (Inr (Some
                  \<lparr>resp_Data =
                     (''revocation_time'', RInt (RevocationTime revInfo))
                     # (if \<not> IsZero (RevocationTimeUTC revInfo)
                        then [(''revocation_time_rfc3339'',
                               RStr (FormatRFC3339Nano env (RevocationTimeUTC revInfo)))]
                        else []),
                   resp_Warnings = []\<rparr>), s2)))"

definition revokeCert ::
  "env \<Rightarrow> string \<Rightarrow> bool \<Rightarrow> state \<Rightarrow> (error + response option) \<times> state" where
  "revokeCert env serial fromLease s =
     (if Tainted env then (Inr None, s)
      else
        (case (if \<not> useLegacyBundleCaStorage env then
                 (case listIssuers env of
                    Inl err \<Rightarrow>
                      Inl (Inr (Some (ErrorResponse
                             (''could not fetch issuers list: '' @ err_string err))))
                  | Inr issuers \<Rightarrow> Inr issuers)
               else Inr [legacyBundleShimID env]) of
           Inl early \<Rightarrow> (early, s)
         | Inr issuers \<Rightarrow>
        (case revokeCert_issuers env serial issuers [] of
           Inl early \<Rightarrow> (early, s)
         | Inr issuerIDCertMap \<Rightarrow>
        (case fetchCertBySerial env (storage s) revokedPath serial of
           Inl err \<Rightarrow>
             (if is_UserError err then (Inr (Some (ErrorResponse (err_string err))), s)
              else (Inl err, s))
         | Inr None \<Rightarrow>
             (case revokeCert_store env serial fromLease issuerIDCertMap zero_revocationInfo s of
                (Inl early, s1) \<Rightarrow> (early, s1)
              | (Inr revInfo, s1) \<Rightarrow> revokeCert_respond env revInfo s1)
         | Inr (Some revEntry) \<Rightarrow>
             (case DecodeJSON_revocationInfo revEntry of
                Inl err \<Rightarrow> (Inl (PlainError ''error decoding existing revocation info''), s)
              | Inr revInfo \<Rightarrow> revokeCert_respond env revInfo s)))))"

subsection \<open>What a run writes\<close>

text \<open>
  \<open>writes_ok R l w\<close>: the writes \<open>w\<close> (newest first) were made one after the other on
  top of the log \<open>l\<close>, and each write \<open>x\<close> satisfied \<open>R l' x\<close> for the log \<open>l'\<close> it was
  made on.  \<open>writes_only R s s'\<close>: from \<open>s\<close> to \<open>s'\<close> the builder singleton is untouched
  and the storage log has grown by such writes.
\<close>

fun writes_ok ::
  "((string \<times> sval option) list \<Rightarrow> string \<times> sval option \<Rightarrow> bool)
     \<Rightarrow> (string \<times> sval option) list \<Rightarrow> (string \<times> sval option) list \<Rightarrow> bool" where
  "writes_ok R l [] = True"
| "writes_ok R l (x # w) = (writes_ok R l w \<and> R (w @ l) x)"

definition writes_only ::
  "((string \<times> sval option) list \<Rightarrow> string \<times> sval option \<Rightarrow> bool) \<Rightarrow> state \<Rightarrow> state \<Rightarrow> bool" where
  "writes_only R s s' =
     (forceRebuild s' = forceRebuild s \<and> dirty s' = dirty s \<and> config s' = config s
      \<and> uuid_count s \<le> uuid_count s'
      \<and> (\<exists>w. storage s' = w @ storage s \<and> writes_ok R (storage s) w))"

text \<open>
  The writes a build may make.  \<open>crl_write\<close>, with the configuration \<open>g\<close> it loaded: it
  deletes CRLs; it stores a CRL under \<^verbatim>\<open>crls/\<close> or at the legacy path, an empty one if
  the CRL is disabled; it stores the index at its key.  \<open>entry_write\<close>, with its map
  \<open>icm\<close> of the issuers' certificates: it replaces a revocation entry by the same entry
  with the issuer that \<^verbatim>\<open>associateRevokedCertWithIsssuer\<close> found for its certificate.
\<close>

fun crl_write :: "env \<Rightarrow> crlConfig \<Rightarrow> string \<times> sval option \<Rightarrow> bool" where
  "crl_write env g (k, None) = (take 5 k = ''crls/'')"
| "crl_write env g (k, Some (SCRL t c)) =
     ((take 5 k = ''crls/'' \<or> k = legacyCRLPath env)
      \<and> (Disable g \<longrightarrow> RevokedCertificates t = []))"
| "crl_write env g (k, Some (SLocalCRLConfig idx)) = (k = storageLocalCRLConfig env)"
| "crl_write env g (k, Some v) = False"

fun entry_write ::
  "env \<Rightarrow> (issuerID \<times> certificate) list \<Rightarrow> (string \<times> sval option) list
     \<Rightarrow> string \<times> sval option \<Rightarrow> bool" where
  "entry_write env icm l (k, Some (SRevInfo r')) =
     (take 8 k = revokedPath
      \<and> (case log_get l k of
            Some (SRevInfo r) \<Rightarrow>
              r' = r\<lparr>CertificateIssuer := CertificateIssuer r'\<rparr>
              \<and> (case ParseCertificate env (CertificateBytes r) of
                    Inr cert \<Rightarrow>
                      associate_scan env cert (go_range env icm) = Some (CertificateIssuer r')
                  | Inl e \<Rightarrow> False)
          | _ \<Rightarrow> False))"
| "entry_write env icm l (k, v) = False"

definition build_write ::
  "env \<Rightarrow> crlConfig \<Rightarrow> (issuerID \<times> certificate) list \<Rightarrow> (string \<times> sval option) list
     \<Rightarrow> string \<times> sval option \<Rightarrow> bool" where
  "build_write env g icm l x = (crl_write env g x \<or> entry_write env icm l x)"

fun crl_write_sat :: "(string \<Rightarrow> RevocationList \<Rightarrow> bool) \<Rightarrow> string \<times> sval option \<Rightarrow> bool" where
  "crl_write_sat Q (k, Some (SCRL t c)) = Q k t"
| "crl_write_sat Q (k, v) = True"

definition empty_if_disabled :: "crlConfig \<Rightarrow> string \<Rightarrow> RevocationList \<Rightarrow> bool" where
  "empty_if_disabled g k t = (Disable g \<longrightarrow> RevokedCertificates t = [])"

subsection \<open>The issuers that a revocation sees\<close>

text \<open>
  \<open>issuers_of\<close> is the list of issuers that \<^verbatim>\<open>revokeCert\<close> and \<^verbatim>\<open>buildCRLs\<close> go through;
  \<open>issuer_certificate\<close> is the certificate that \<^verbatim>\<open>revokeCert\<close> gets for an issuer, when
  the bundle is found and parses.
\<close>

definition issuers_of :: "env \<Rightarrow> error + issuerID list" where
  "issuers_of env =
     (if useLegacyBundleCaStorage env then Inr [legacyBundleShimID env] else listIssuers env)"

definition issuer_certificate :: "env \<Rightarrow> issuerID \<Rightarrow> certificate option" where
  "issuer_certificate env i =
     (case fetchCertBundleByIssuerId env i of
        Inr (entry, Some bundle) \<Rightarrow>
          (case parseCABundle env bundle of Inr (Some c) \<Rightarrow> Some c | _ \<Rightarrow> None)
      | _ \<Rightarrow> None)"

definition self_revocation_response :: "issuerID \<Rightarrow> response" where
  "self_revocation_response i =
     ErrorResponse (''adding issuer (id: '' @ i @ '') to its own CRL is not allowed'')"

text \<open>The map \<^verbatim>\<open>issuerIDCertMap\<close> that \<^verbatim>\<open>buildCRLs\<close> fills from the issuers.\<close>

definition build_icm :: "env \<Rightarrow> (issuerID \<times> certificate) list" where
  "build_icm env =
     (case issuers_of env of
        Inl e \<Rightarrow> []
      | Inr issuers \<Rightarrow>
          (case buildCRLs_issuers env issuers ([], [], []) of
             Inl e \<Rightarrow> []
           | Inr (iem, icm, ksm) \<Rightarrow> icm))"

subsection \<open>Equivalence classes and the index\<close>

text \<open>
  \<open>class_of env i\<close> is the pair (key, raw subject) under which \<^verbatim>\<open>buildCRLs\<close> files the
  issuer \<open>i\<close>, if it files it at all: the issuer has a key, may sign CRLs, and its
  certificate parses.  \<open>cell ksm k subj\<close> reads \<^verbatim>\<open>keySubjectIssuersMap[k][subj]\<close>.
  \<open>range_covers\<close>: a \<^verbatim>\<open>range\<close> over a Go map visits every key.  \<open>index_of\<close> is the
  cluster-local index that the storage holds, \<open>crl_of idx i\<close> reads \<^verbatim>\<open>idx.IssuerIDCRLMap[i]\<close>.
\<close>

definition class_of :: "env \<Rightarrow> issuerID \<Rightarrow> (keyID \<times> string) option" where
  "class_of env i =
     (case fetchCertBundleByIssuerId env i of
        Inl err \<Rightarrow> None
      | Inr (e, b) \<Rightarrow>
          (if length (KeyID e) = 0 \<or> \<not> CRLSigningUsage e then None
           else (case GetCertificate e of Inl err \<Rightarrow> None | Inr c \<Rightarrow> Some (KeyID e, RawSubject c))))"

definition cell :: "(keyID \<times> (string \<times> issuerID list) list) list \<Rightarrow> keyID \<Rightarrow> string \<Rightarrow> issuerID list" where
  "cell ksm k subj =
     (case map_of ksm k of
        None \<Rightarrow> []
      | Some inner \<Rightarrow> (case map_of inner subj of None \<Rightarrow> [] | Some l \<Rightarrow> l))"

definition range_covers :: "env \<Rightarrow> bool" where
  "range_covers env = (\<forall>ks. set ks \<subseteq> set (range_order env ks))"

definition index_of :: "env \<Rightarrow> state \<Rightarrow> localCRLConfigEntry" where
  "index_of env s =
     (case log_get (storage s) (storageLocalCRLConfig env) of
        Some (SLocalCRLConfig c) \<Rightarrow> c
      | _ \<Rightarrow> \<lparr>IssuerIDCRLMap = [], CRLNumberMap = [], CRLExpirationMap = []\<rparr>)"

definition crl_of :: "localCRLConfigEntry \<Rightarrow> issuerID \<Rightarrow> crlID" where
  "crl_of idx i = (case map_of (IssuerIDCRLMap idx) i of None \<Rightarrow> [] | Some c \<Rightarrow> c)"

subsection \<open>The issuer of a revoked certificate\<close>

text \<open>
  \<open>issued_by\<close> is the test of \<^verbatim>\<open>associateRevokedCertWithIsssuer\<close>: the raw issuer of the
  certificate is the raw subject of the issuer's certificate, and the signature
  verifies.  \<open>issuer_known env cert j\<close>: the issuer \<open>j\<close> passes that test with the
  certificate that \<^verbatim>\<open>revokeCert\<close> or \<^verbatim>\<open>buildCRLs\<close> has for it.
\<close>

definition issued_by :: "env \<Rightarrow> certificate \<Rightarrow> certificate \<Rightarrow> bool" where
  "issued_by env cert ic = (RawIssuer cert = RawSubject ic \<and> CheckSignatureFrom env cert ic)"

definition issuer_known :: "env \<Rightarrow> certificate \<Rightarrow> issuerID \<Rightarrow> bool" where
  "issuer_known env cert j =
     (\<exists>ic. (issuer_certificate env j = Some ic \<or> map_of (build_icm env) j = Some ic)
           \<and> issued_by env cert ic)"

subsection \<open>CRL numbers\<close>

text \<open>
  The numbers of the CRLs that were written for the CRL-ID \<open>c\<close>, that is under the key
  \<^verbatim>\<open>crls/<c>\<close>, in the order in which they were written.
\<close>

fun numbers_written :: "crlID \<Rightarrow> (string \<times> sval option) list \<Rightarrow> 64 word list" where
  "numbers_written c [] = []"
| "numbers_written c ((k, Some (SCRL t cert)) # l) =
     numbers_written c l @ (if k = ''crls/'' @ c then [Number t] else [])"
| "numbers_written c ((k, v) # l) = numbers_written c l"

subsection \<open>A concrete mount\<close>

text \<open>
  A small concrete environment and state, on which the theorems below are instantiated:
  two issuers with the same key and subject, one issued certificate, no revocation yet.
\<close>

definition ex_now :: time where
  "ex_now = 63800000000 * Second"

definition ex_ca :: certificate where
  "ex_ca = \<lparr>Raw = ''der-root'', RawIssuer = ''CN=root'', RawSubject = ''CN=root'',
            SerialNumber = 1, NotAfter = ex_now + 1000000 * Second, IsCA = True\<rparr>"

definition ex_leaf :: certificate where
  "ex_leaf = \<lparr>Raw = ''der-leaf'', RawIssuer = ''CN=root'', RawSubject = ''CN=leaf'',
              SerialNumber = 26, NotAfter = ex_now + 86400 * Second, IsCA = False\<rparr>"

definition ex_entry :: issuerEntry where
  "ex_entry = \<lparr>KeyID = ''key-1'', CRLSigningUsage = True, Revoked = False,
               issuer_RevocationTimeUTC = 0, GetCertificate = Inr ex_ca\<rparr>"

definition ex_config :: crlConfig where
  "ex_config = \<lparr>Expiry = ''72h'', Disable = False, AutoRebuild = False,
                AutoRebuildGracePeriod = ''12h''\<rparr>"

definition ex_env :: env where
  "ex_env =
     \<lparr>Tainted = False,
      ReplicationPerformanceStandby = False,
      ReplicationDRSecondary = False,
      useLegacyBundleCaStorage = False,
      legacyBundleShimID = ''legacy-entry-shim-id'',
      legacyCRLPath = ''crl'',
      storageLocalCRLConfig = ''crls/config'',
      defaultCrlConfig = ex_config,
      listIssuers = Inr [''issuer-1'', ''issuer-2''],
      fetchCertBundleByIssuerId =
        (\<lambda>i. if i = ''issuer-1'' \<or> i = ''issuer-2'' then Inr (ex_entry, Some ''pem-root'')
             else Inl (UserError ''unable to find issuer'')),
      parseCABundle = (\<lambda>b. Inr (Some ex_ca)),
      fetchCAInfoByIssuerId =
        (\<lambda>i. Inr \<lparr>ca_Certificate = ex_ca, ca_PrivateKey = ''private-key'',
                   ca_RevocationSigAlg = 4\<rparr>),
      getRevocationConfig = Inr None,
      getIssuersConfig = Inr \<lparr>DefaultIssuerId = ''issuer-1''\<rparr>,
      serialFromCert = (\<lambda>c. if SerialNumber c = 1 then ''01'' else ''1a''),
      normalizeSerial = ToLower,
      fetchCertBySerial = (\<lambda>l prefix serial. Inr (log_get l (prefix @ ToLower serial))),
      ParseCertificate =
        (\<lambda>b. if b = ''der-leaf'' then Inr ex_leaf
             else if b = ''der-root'' then Inr ex_ca
             else Inl (PlainError ''x509: malformed certificate'')),
      CheckSignatureFrom = (\<lambda>c p. RawIssuer c = RawSubject p),
      CreateRevocationList_err = (\<lambda>t b. None),
      StorageEntryJSON_err = (\<lambda>r. False),
      ParseDuration =
        (\<lambda>d. if d = ''72h'' then Inr (259200 * Second)
             else Inl (PlainError ''time: invalid duration'')),
      FormatRFC3339Nano = (\<lambda>t. ''2022-09-23T12:00:00Z''),
      Now = ex_now,
      genCRLId = (\<lambda>k. ''crl-'' @ replicate k (CHR ''x'')),
      storage_err = (\<lambda>op k. None),
      range_order = (\<lambda>ks. ks)\<rparr>"

definition ex_state :: state where
  "ex_state =
     \<lparr>storage = [(''certs/1a'', Some (SBytes ''der-leaf''))],
      forceRebuild = 0,
      dirty = True,
      config = ex_config,
      uuid_count = 0\<rparr>"

definition ex_env_disabled :: env where
  "ex_env_disabled = ex_env\<lparr>getRevocationConfig := Inr (Some (ex_config\<lparr>Disable := True\<rparr>))\<rparr>"

definition ex_state_forced :: state where
  "ex_state_forced = ex_state\<lparr>forceRebuild := 1\<rparr>"

text \<open>The state after the certificate was revoked and a CRL built, with a rebuild pending.\<close>

definition ex_state_pending :: state where
  "ex_state_pending =
     \<lparr>storage =
        [(''crls/config'',
          Some (SLocalCRLConfig
                 \<lparr>IssuerIDCRLMap = [(''issuer-1'', ''crl-''), (''issuer-2'', ''crl-'')],
                  CRLNumberMap = [(''crl-'', 2)],
                  CRLExpirationMap = [(''crl-'', ex_now + 259200 * Second)]\<rparr>)),
         (''crls/crl-'',
          Some (SCRL \<lparr>RevokedCertificates = [\<lparr>rc_SerialNumber = 26, rc_RevocationTime = ex_now\<rparr>],
                      Number = 1, ThisUpdate = ex_now, NextUpdate = ex_now + 259200 * Second,
                      SignatureAlgorithm = 4\<rparr> ex_ca)),
         (''revoked/1a'',
          Some (SRevInfo \<lparr>CertificateBytes = ''der-leaf'', RevocationTime = 1664403200,
                          RevocationTimeUTC = ex_now, CertificateIssuer = ''issuer-1''\<rparr>)),
         (''certs/1a'', Some (SBytes ''der-leaf''))],
      forceRebuild = 1,
      dirty = True,
      config = ex_config,
      uuid_count = 1\<rparr>"

text \<open>A state in which the root's own serial has a revocation entry.\<close>

definition ex_state_issuer_entry :: state where
  "ex_state_issuer_entry =
     ex_state\<lparr>storage :=
        [(''revoked/01'',
          Some (SRevInfo \<lparr>CertificateBytes = ''der-root'', RevocationTime = 1664403200,
                          RevocationTimeUTC = ex_now, CertificateIssuer = []\<rparr>))]\<rparr>"

text \<open>The environment one second before the issued certificate expires.\<close>

definition ex_env_late :: env where
  "ex_env_late = ex_env\<lparr>Now := ex_now + 86399 * Second\<rparr>"

text \<open>A state whose index was written when \<open>issuer-1\<close> was the only issuer.\<close>

definition ex_state_stale :: state where
  "ex_state_stale =
     \<lparr>storage =
        [(''crls/config'',
          Some (SLocalCRLConfig
                 \<lparr>IssuerIDCRLMap = [(''issuer-1'', ''crl-'')],
                  CRLNumberMap = [(''crl-'', 2)],
                  CRLExpirationMap = [(''crl-'', ex_now + 259200 * Second)]\<rparr>)),
         (''crls/crl-'',
          Some (SCRL \<lparr>RevokedCertificates = [], Number = 1, ThisUpdate = ex_now,
                      NextUpdate = ex_now + 259200 * Second, SignatureAlgorithm = 4\<rparr> ex_ca))],
      forceRebuild = 0,
      dirty = True,
      config = ex_config,
      uuid_count = 1\<rparr>"

text \<open>A state with a revocation entry that has no issuer yet.\<close>

definition ex_state_unassociated :: state where
  "ex_state_unassociated =
     ex_state\<lparr>storage :=
        [(''revoked/1a'',
          Some (SRevInfo \<lparr>CertificateBytes = ''der-leaf'', RevocationTime = 1664403200,
                          RevocationTimeUTC = ex_now, CertificateIssuer = []\<rparr>)),
         (''certs/1a'', Some (SBytes ''der-leaf''))]\<rparr>"

text \<open>
  The environment in which the write of the index fails, and the state after a first
  build (index at number 2 for the CRL \<open>crl-\<close>, its CRL written with number 1).
\<close>

definition ex_env_index_put_fails :: env where
  "ex_env_index_put_fails =
     ex_env\<lparr>storage_err :=
        (\<lambda>op k. if op = OpPut \<and> k = ''crls/config'' then Some ''context canceled'' else None)\<rparr>"

definition ex_state_built :: state where
  "ex_state_built = ex_state_pending\<lparr>forceRebuild := 0\<rparr>"

section \<open>Frame properties\<close>

lemma writes_ok_append:
  "writes_ok R l (w2 @ w1) = (writes_ok R l w1 \<and> writes_ok R (w1 @ l) w2)"
  by (induction w2) auto

lemma writes_ok_invariant:
  assumes "\<And>l x. I l \<Longrightarrow> R l x \<Longrightarrow> I (x # l)"
  shows "I l \<Longrightarrow> writes_ok R l w \<Longrightarrow> I (w @ l)"
  by (induction w) (auto intro: assms)

lemma writes_ok_all:
  assumes "\<And>l x. R l x \<Longrightarrow> P x"
  shows "writes_ok R l w \<Longrightarrow> list_all P w"
  by (induction w) (auto intro: assms)

lemma writes_only_refl [simp]: "writes_only R s s"
  by (simp add: writes_only_def)

lemma writes_only_trans: "writes_only R s s1 \<Longrightarrow> writes_only R s1 s2 \<Longrightarrow> writes_only R s s2"
  by (auto simp: writes_only_def writes_ok_append)

lemma writes_only_invariant:
  assumes "writes_only R s s'" and "I (storage s)"
      and "\<And>l x. I l \<Longrightarrow> R l x \<Longrightarrow> I (x # l)"
  shows "I (storage s')"
  using assms(1,2) writes_ok_invariant [of I R, OF assms(3)]
  by (auto simp: writes_only_def)

lemma writes_only_Put:
  "storage_Put env k v s = (r, s') \<Longrightarrow> R (storage s) (k, Some v) \<Longrightarrow> writes_only R s s'"
  by (auto simp: storage_Put_def writes_only_def split: option.splits)

lemma writes_only_Delete:
  "storage_Delete env k s = (r, s') \<Longrightarrow> R (storage s) (k, None) \<Longrightarrow> writes_only R s s'"
  by (auto simp: storage_Delete_def writes_only_def split: option.splits)

lemma writes_only_mono:
  assumes "writes_only R s s'" and "\<And>l x. R l x \<Longrightarrow> R' l x"
  shows "writes_only R' s s'"
proof -
  have "writes_ok R l w \<Longrightarrow> writes_ok R' l w" for l w
    by (induction w) (auto intro: assms(2))
  with assms(1) show ?thesis by (auto simp: writes_only_def)
qed

lemma writes_only_buildCRL_WRITE:
  "buildCRL_WRITE env d i r c n s = (res, s') \<Longrightarrow> Disable g \<longrightarrow> r = []
   \<Longrightarrow> writes_only (\<lambda>l. crl_write env g) s s'"
  by (auto simp: buildCRL_WRITE_def Let_def elim!: writes_only_Put
           split: sum.splits option.splits prod.splits if_splits)

lemma writes_only_buildCRL:
  "buildCRL env g f i r c n s = (res, s') \<Longrightarrow> writes_only (\<lambda>l. crl_write env g) s s'"
  by (auto simp: buildCRL_def elim!: writes_only_buildCRL_WRITE split: sum.splits if_splits)

lemma writes_only_step:
  "getRevokedCertEntries_step env icm iscm serial acc s = (res, s')
   \<Longrightarrow> writes_only (entry_write env icm) s s'"
  by (auto simp: getRevokedCertEntries_step_def Let_def storage_Get_def
                 DecodeJSON_revocationInfo_def associateRevokedCertWithIsssuer_def revokedPath_def
           elim!: writes_only_Put
           split: sum.splits option.splits prod.splits bool.splits if_splits sval.splits)

lemma writes_only_loop:
  "getRevokedCertEntries_loop env icm iscm serials acc s = (res, s')
   \<Longrightarrow> writes_only (entry_write env icm) s s'"
proof (induction serials arbitrary: acc s)
  case Nil
  then show ?case by simp
next
  case (Cons serial rest)
  obtain r1 s1 where c: "getRevokedCertEntries_step env icm iscm serial acc s = (r1, s1)"
    by (cases "getRevokedCertEntries_step env icm iscm serial acc s")
  have 1: "writes_only (entry_write env icm) s s1" using writes_only_step [OF c] .
  show ?case
  proof (cases r1)
    case (Inl e)
    then show ?thesis using Cons.prems c 1 by simp
  next
    case (Inr acc')
    then have "getRevokedCertEntries_loop env icm iscm rest acc' s1 = (res, s')"
      using Cons.prems c by simp
    then show ?thesis using Cons.IH 1 writes_only_trans by blast
  qed
qed

lemma writes_only_getRevokedCertEntries:
  "getRevokedCertEntries env icm s = (res, s') \<Longrightarrow> writes_only (entry_write env icm) s s'"
  by (auto simp: getRevokedCertEntries_def elim!: writes_only_loop split: sum.splits)

lemma writes_only_uuid: "writes_only R s (s\<lparr>uuid_count := Suc (uuid_count s)\<rparr>)"
  by (simp add: writes_only_def)

lemma writes_only_class:
  "buildCRLs_class env g f dflt un rcm issuersSet crlConfig s = (res, s')
   \<Longrightarrow> writes_only (\<lambda>l. crl_write env g) s s'"
  unfolding buildCRLs_class_def Let_def
  by (auto split: list.splits sum.splits prod.splits if_splits
           dest!: writes_only_buildCRL intro: writes_only_trans [OF writes_only_uuid])

lemma writes_only_classes:
  "buildCRLs_classes env g f dflt un rcm classes crlConfig s = (res, s')
   \<Longrightarrow> writes_only (\<lambda>l. crl_write env g) s s'"
proof (induction classes arbitrary: crlConfig s)
  case Nil
  then show ?case by simp
next
  case (Cons issuersSet rest)
  obtain r1 s1 where c: "buildCRLs_class env g f dflt un rcm issuersSet crlConfig s = (r1, s1)"
    by (cases "buildCRLs_class env g f dflt un rcm issuersSet crlConfig s")
  have 1: "writes_only (\<lambda>l. crl_write env g) s s1" using writes_only_class [OF c] .
  show ?case
  proof (cases r1)
    case (Inl e)
    then show ?thesis using Cons.prems c 1 by simp
  next
    case (Inr crlConfig')
    then have "buildCRLs_classes env g f dflt un rcm rest crlConfig' s1 = (res, s')"
      using Cons.prems c by simp
    then show ?thesis using Cons.IH 1 writes_only_trans by blast
  qed
qed

lemma writes_only_delete_unreferenced:
  "delete_unreferenced env idmap numbers s = (res, s')
   \<Longrightarrow> writes_only (\<lambda>l. crl_write env g) s s'"
proof (induction numbers arbitrary: s)
  case Nil
  then show ?case by simp
next
  case (Cons a rest)
  obtain crlId n where a: "a = (crlId, n)" by (cases a)
  show ?case
  proof (cases "list_ex (\<lambda>(i, remainingCRL). remainingCRL = crlId) (go_range env idmap)")
    case True
    then show ?thesis using Cons a by simp
  next
    case False
    obtain r1 s1 where d: "storage_Delete env (''crls/'' @ crlId) s = (r1, s1)"
      by (cases "storage_Delete env (''crls/'' @ crlId) s")
    have 1: "writes_only (\<lambda>l. crl_write env g) s s1"
      by (rule writes_only_Delete [OF d]) simp
    show ?thesis
    proof (cases r1)
      case (Inl e)
      then show ?thesis using Cons.prems a False d 1 by simp
    next
      case (Inr u)
      then have "delete_unreferenced env idmap rest s1 = (res, s')"
        using Cons.prems a False d by simp
      then show ?thesis using Cons.IH 1 writes_only_trans by blast
    qed
  qed
qed

lemma writes_only_setLocalCRLConfig:
  "setLocalCRLConfig env c s = (res, s') \<Longrightarrow> writes_only (\<lambda>l. crl_write env g) s s'"
  by (auto simp: setLocalCRLConfig_def elim!: writes_only_Put)

lemma writes_only_run_parts:
  assumes "buildCRLs_run env g f s = (res, s')"
  shows "(s' = s \<and> (\<exists>e. res = Inl e))
         \<or> (\<exists>issuers iem icm ksm r5 s1.
               issuers_of env = Inr issuers
               \<and> buildCRLs_issuers env issuers ([], [], []) = Inr (iem, icm, ksm)
               \<and> getRevokedCertEntries env icm s = (r5, s1)
               \<and> (res = Inr () \<longrightarrow> (\<exists>p. r5 = Inr p))
               \<and> writes_only (entry_write env icm) s s1
               \<and> writes_only (\<lambda>l. crl_write env g) s1 s')"
proof -
  note r = assms [unfolded buildCRLs_run_def Let_def]
  show ?thesis
  proof (cases "issuers_of env")
    case (Inl e)
    then show ?thesis using r
      by (auto simp: issuers_of_def split: if_splits sum.splits)
  next
    case (Inr issuers)
    then have i: "(if \<not> useLegacyBundleCaStorage env then
                     (case listIssuers env of
                        Inl err \<Rightarrow> Inl (Errorf ''error building CRL: while listing issuers: '' err)
                      | Inr issuers \<Rightarrow> Inr (issuers, False))
                   else Inr ([legacyBundleShimID env], True))
                  = Inr (issuers, useLegacyBundleCaStorage env)"
      by (auto simp: issuers_of_def split: if_splits)
    note r1 = r [unfolded i, simplified]
    show ?thesis
    proof (cases "getIssuersConfig env")
      case (Inl e)
      then show ?thesis using r1 by auto
    next
      case ic: (Inr issuersConfig)
      show ?thesis
      proof (cases "buildCRLs_issuers env issuers ([], [], [])")
        case (Inl e)
        then show ?thesis using r1 ic by auto
      next
        case bi: (Inr t)
        obtain iem icm ksm where t: "t = (iem, icm, ksm)" by (cases t)
        show ?thesis
        proof (cases "getLocalCRLConfig env s")
          case (Inl e)
          then show ?thesis using r1 ic bi t by auto
        next
          case lc: (Inr cfg0)
          obtain r5 s1 where ge: "getRevokedCertEntries env icm s = (r5, s1)"
            by (cases "getRevokedCertEntries env icm s")
          note w1 = writes_only_getRevokedCertEntries [OF ge]
          show ?thesis
          proof (cases r5)
            case (Inl e)
            then have "s' = s1" and "res \<noteq> Inr ()" using r1 ic bi t lc ge by auto
            with w1 Inr bi t ge show ?thesis by auto
          next
            case re: (Inr p)
            obtain un rcm0 where p: "p = (un, rcm0)" by (cases p)
            show ?thesis
            proof (cases "augmentWithRevokedIssuers env iem icm rcm0")
              case (Inl e)
              then have "s' = s1" and "res \<noteq> Inr ()" using r1 ic bi t lc ge re p by auto
              with w1 Inr bi t ge show ?thesis by auto
            next
              case au: (Inr rcm)
              obtain r2 s2 where cl:
                "buildCRLs_classes env g f (DefaultIssuerId issuersConfig) un rcm
                   (equivalence_classes env ksm) cfg0 s1 = (r2, s2)"
                by (cases "buildCRLs_classes env g f (DefaultIssuerId issuersConfig) un rcm
                             (equivalence_classes env ksm) cfg0 s1")
              note w2 = writes_only_classes [OF cl]
              have "writes_only (\<lambda>l. crl_write env g) s1 s'"
              proof (cases r2)
                case (Inl e)
                then have "s' = s2" using r1 ic bi t lc ge re p au cl by simp
                with w2 show ?thesis by simp
              next
                case c1: (Inr cfg1)
                define cfg2 where
                  "cfg2 = cfg1\<lparr>IssuerIDCRLMap :=
                                  prune_IssuerIDCRLMap env issuers (IssuerIDCRLMap cfg1)\<rparr>"
                obtain r3 s3 where d:
                  "delete_unreferenced env (prune_IssuerIDCRLMap env issuers (IssuerIDCRLMap cfg1))
                     (go_range env (CRLNumberMap cfg1)) s2 = (r3, s3)"
                  by (cases "delete_unreferenced env
                               (prune_IssuerIDCRLMap env issuers (IssuerIDCRLMap cfg1))
                               (go_range env (CRLNumberMap cfg1)) s2")
                note w3 = writes_only_trans [OF w2 writes_only_delete_unreferenced [OF d, of g]]
                note r2 = r1 ic bi t lc ge re p au cl c1 d
                show ?thesis
                proof (cases r3)
                  case (Inl e)
                  then have "s' = s3" using r2 by simp
                  with w3 show ?thesis by simp
                next
                  case d3: (Inr u)
                  show ?thesis
                  proof (cases "useLegacyBundleCaStorage env")
                    case True
                    then have "s' = s3" using r2 d3 by simp
                    with w3 show ?thesis by simp
                  next
                    case False
                    obtain r4 s4 where q: "setLocalCRLConfig env cfg2 s3 = (r4, s4)"
                      by (cases "setLocalCRLConfig env cfg2 s3")
                    note w4 = writes_only_trans [OF w3 writes_only_setLocalCRLConfig [OF q, of g]]
                    have "s' = s4" using r2 d3 False q by (cases r4) (auto simp: cfg2_def)
                    with w4 show ?thesis by simp
                  qed
                qed
              qed
              with w1 Inr bi t ge re show ?thesis by auto
            qed
          qed
        qed
      qed
    qed
  qed
qed

lemma build_icm_eq:
  "issuers_of env = Inr issuers \<Longrightarrow> buildCRLs_issuers env issuers ([], [], []) = Inr (iem, icm, ksm)
   \<Longrightarrow> build_icm env = icm"
  by (simp add: build_icm_def)

lemma writes_only_run:
  assumes "buildCRLs_run env g f s = (res, s')"
  shows "writes_only (build_write env g (build_icm env)) s s'"
proof -
  from writes_only_run_parts [OF assms]
  consider "s' = s"
    | issuers iem icm ksm s1 where "issuers_of env = Inr issuers"
        "buildCRLs_issuers env issuers ([], [], []) = Inr (iem, icm, ksm)"
        "writes_only (entry_write env icm) s s1"
        "writes_only (\<lambda>l. crl_write env g) s1 s'"
    by blast
  then show ?thesis
  proof cases
    case 1
    then show ?thesis by simp
  next
    case 2
    have "writes_only (build_write env g (build_icm env)) s s1"
      using 2(3) unfolding build_icm_eq [OF 2(1,2)]
      by (rule writes_only_mono) (simp add: build_write_def)
    moreover have "writes_only (build_write env g (build_icm env)) s1 s'"
      using 2(4) by (rule writes_only_mono) (simp add: build_write_def)
    ultimately show ?thesis by (rule writes_only_trans)
  qed
qed

lemma getConfigWithUpdate_frame:
  "getConfigWithUpdate env s = (res, s1) \<Longrightarrow>
     storage s1 = storage s \<and> forceRebuild s1 = forceRebuild s \<and> uuid_count s1 = uuid_count s
     \<and> (\<forall>cfg. res = Inr cfg \<longrightarrow> config s1 = cfg)"
  by (auto simp: getConfigWithUpdate_def reloadConfigIfRequired_def
           split: if_splits sum.splits option.splits)

text \<open>
  A build leaves the force-rebuild flag alone, and its writes are those of
  \<open>build_write\<close> for the configuration it loaded and its map of issuer certificates.
\<close>

lemma buildCRLs_writes:
  assumes "buildCRLs env f s = (res, s')"
  shows "forceRebuild s' = forceRebuild s
         \<and> (\<exists>w. storage s' = w @ storage s
                \<and> writes_ok (build_write env (config s') (build_icm env)) (storage s) w)"
proof -
  obtain r1 s1 where g: "getConfigWithUpdate env s = (r1, s1)"
    by (cases "getConfigWithUpdate env s")
  note fr = getConfigWithUpdate_frame [OF g]
  show ?thesis
  proof (cases r1)
    case (Inl e)
    then show ?thesis using assms g fr by (simp add: buildCRLs_def)
  next
    case (Inr cfg)
    show ?thesis
    proof (cases "Disable cfg \<and> \<not> f")
      case True
      then show ?thesis using assms g fr Inr by (simp add: buildCRLs_def)
    next
      case False
      then have "buildCRLs_run env cfg f s1 = (res, s')"
        using assms g Inr by (auto simp add: buildCRLs_def)
      from writes_only_run [OF this] fr Inr show ?thesis
        by (auto simp: writes_only_def)
    qed
  qed
qed

lemma buildCRLs_frame:
  assumes "buildCRLs env f s = (res, s')"
  shows "forceRebuild s' = forceRebuild s
         \<and> (\<exists>w. storage s' = w @ storage s \<and> list_all (crl_write_sat (empty_if_disabled (config s'))) w)"
proof -
  have "\<And>l x. build_write env (config s') (build_icm env) l x
             \<Longrightarrow> crl_write_sat (empty_if_disabled (config s')) x"
  proof -
    fix l :: "(string \<times> sval option) list" and x :: "string \<times> sval option"
    assume a: "build_write env (config s') (build_icm env) l x"
    obtain k v where x: "x = (k, v)" by (cases x)
    show "crl_write_sat (empty_if_disabled (config s')) x"
    proof (cases v)
      case None
      then show ?thesis using x by simp
    next
      case (Some y)
      then show ?thesis
        using x a by (cases y) (simp_all add: empty_if_disabled_def build_write_def)
    qed
  qed
  then show ?thesis
    using buildCRLs_writes [OF assms]
          writes_ok_all [of "build_write env (config s') (build_icm env)"] by blast
qed

section \<open>The builder and the disabled CRL\<close>

text \<open>
  Claim C5.  When the configuration that \<^verbatim>\<open>buildCRLs\<close> loads has \<^verbatim>\<open>Disable\<close> set and
  \<^verbatim>\<open>forceNew\<close> is false, \<^verbatim>\<open>buildCRLs\<close> returns success at once, in the state in which the
  load of the configuration left the builder, and the storage is the one it started
  from: nothing was written, no CRL, no index, no revocation entry.
\<close>

theorem buildCRLs_disabled_is_noop:
  assumes "getConfigWithUpdate env s = (Inr cfg, s1)" and "Disable cfg"
  shows "buildCRLs env False s = (Inr (), s1) \<and> storage s1 = storage s"
  using assms getConfigWithUpdate_frame [OF assms(1)] by (simp add: buildCRLs_def)

theorem buildCRLs_disabled_is_noop_witness:
  "buildCRLs ex_env_disabled False ex_state
     = (Inr (), ex_state\<lparr>config := ex_config\<lparr>Disable := True\<rparr>, dirty := False\<rparr>)
   \<and> storage (ex_state\<lparr>config := ex_config\<lparr>Disable := True\<rparr>, dirty := False\<rparr>) = storage ex_state"
proof -
  have h: "getConfigWithUpdate ex_env_disabled ex_state
             = (Inr (ex_config\<lparr>Disable := True\<rparr>),
                ex_state\<lparr>config := ex_config\<lparr>Disable := True\<rparr>, dirty := False\<rparr>)"
    by (simp add: getConfigWithUpdate_def reloadConfigIfRequired_def ex_env_disabled_def
          ex_env_def ex_state_def)
  show ?thesis
    using buildCRLs_disabled_is_noop [OF h] by simp
qed

text \<open>
  Claim C6.  With \<^verbatim>\<open>Disable\<close> and \<^verbatim>\<open>forceNew\<close> both set, \<^verbatim>\<open>buildCRL\<close> signs a template whose
  list of revoked certificates is empty, whatever list \<open>revoked\<close> it was given, and
  (when the expiry parses, the signing bundle is found, the signing and the write
  succeed) stores that signed empty CRL at the CRL's path.
\<close>

theorem buildCRL_disabled_forced_signs_empty:
  assumes "Disable crlInfo" and "forceNew"
      and "ParseDuration env (Expiry crlInfo) = Inr crlLifetime"
      and "fetchCAInfoByIssuerId env thisIssuerId = Inr signingBundle"
      and "template = \<lparr>RevokedCertificates = [], Number = crlNumber, ThisUpdate = Now env,
                        NextUpdate = Now env + crlLifetime,
                        SignatureAlgorithm = ca_RevocationSigAlg signingBundle\<rparr>"
      and "CreateRevocationList_err env template signingBundle = None"
      and "writePath = (if thisIssuerId = legacyBundleShimID env then legacyCRLPath env
                        else ''crls/'' @ identifier)"
      and "storage_err env OpPut writePath = None"
  shows "buildCRL env crlInfo forceNew thisIssuerId revoked identifier crlNumber s
           = (Inr (Now env + crlLifetime),
              s\<lparr>storage :=
                   (writePath, Some (SCRL template (ca_Certificate signingBundle))) # storage s\<rparr>)"
  using assms
  by (auto simp: buildCRL_def buildCRL_WRITE_def storage_Put_def Let_def)

theorem buildCRL_disabled_forced_signs_empty_witness:
  "buildCRL ex_env (ex_config\<lparr>Disable := True\<rparr>) True ''issuer-1''
        [\<lparr>rc_SerialNumber = 26, rc_RevocationTime = ex_now\<rparr>] ''crl-'' 7 ex_state
      = (Inr (ex_now + 259200 * Second),
         ex_state\<lparr>storage :=
            (''crls/crl-'',
             Some (SCRL \<lparr>RevokedCertificates = [], Number = 7, ThisUpdate = ex_now,
                         NextUpdate = ex_now + 259200 * Second, SignatureAlgorithm = 4\<rparr> ex_ca))
            # storage ex_state\<rparr>)"
proof -
  have "buildCRL ex_env (ex_config\<lparr>Disable := True\<rparr>) True ''issuer-1''
          [\<lparr>rc_SerialNumber = 26, rc_RevocationTime = ex_now\<rparr>] ''crl-'' 7 ex_state
        = (Inr (Now ex_env + 259200 * Second),
           ex_state\<lparr>storage :=
              (''crls/crl-'',
               Some (SCRL \<lparr>RevokedCertificates = [], Number = 7, ThisUpdate = Now ex_env,
                           NextUpdate = Now ex_env + 259200 * Second,
                           SignatureAlgorithm =
                             ca_RevocationSigAlg
                               \<lparr>ca_Certificate = ex_ca, ca_PrivateKey = ''private-key'',
                                ca_RevocationSigAlg = 4\<rparr>\<rparr>
                       (ca_Certificate \<lparr>ca_Certificate = ex_ca, ca_PrivateKey = ''private-key'',
                                        ca_RevocationSigAlg = 4\<rparr>)))
              # storage ex_state\<rparr>)"
    by (rule buildCRL_disabled_forced_signs_empty) (simp_all add: ex_env_def ex_config_def)
  then show ?thesis by (simp add: ex_env_def)
qed

text \<open>
  The force-rebuild flag only ever holds 0 or 1: every operation of the builder keeps
  it so.
\<close>

lemma forceRebuild_stays_flag:
  assumes "forceRebuild s = 0 \<or> forceRebuild s = 1"
  shows "forceRebuild (requestRebuildIfActiveNode env s) \<in> {0, 1}"
    and "forceRebuild (snd (checkForAutoRebuild env s)) \<in> {0, 1}"
    and "forceRebuild (snd (rebuildIfForced env s)) \<in> {0, 1}"
    and "forceRebuild (snd (rebuild env forceNew s)) \<in> {0, 1}"
    and "forceRebuild (markConfigDirty s) \<in> {0, 1}"
proof -
  show "forceRebuild (requestRebuildIfActiveNode env s) \<in> {0, 1}"
    using assms by (auto simp: requestRebuildIfActiveNode_def CompareAndSwapUint32_def)
  show "forceRebuild (snd (checkForAutoRebuild env s)) \<in> {0, 1}"
  proof -
    obtain r1 s1 where g: "getConfigWithUpdate env s = (r1, s1)"
      by (cases "getConfigWithUpdate env s")
    from getConfigWithUpdate_frame [OF g] assms
    have "forceRebuild s1 = 0 \<or> forceRebuild s1 = 1" by simp
    then show ?thesis
      using g
      by (auto simp: checkForAutoRebuild_def CompareAndSwapUint32_def
               split: sum.splits if_splits)
  qed
  have b: "forceRebuild (snd (buildCRLs env f s0)) = forceRebuild s0" for f s0
    using buildCRLs_writes [of env f s0] by (cases "buildCRLs env f s0") simp
  show "forceRebuild (snd (rebuildIfForced env s)) \<in> {0, 1}"
    using assms b
    by (auto simp: rebuildIfForced_def doRebuild_def CompareAndSwapUint32_def Let_def)
  show "forceRebuild (snd (rebuild env forceNew s)) \<in> {0, 1}"
    using assms b
    by (auto simp: rebuild_def doRebuild_def CompareAndSwapUint32_def Let_def)
  show "forceRebuild (markConfigDirty s) \<in> {0, 1}"
    using assms by (simp add: markConfigDirty_def)
qed

text \<open>
  Claim C7.  The rebuild clears the force-rebuild flag before it builds, not after:
  \<^verbatim>\<open>buildCRLs\<close> itself never writes the flag; when \<^verbatim>\<open>rebuildIfForced\<close> returns success, the
  flag (which only ever holds 0 or 1) is 0, and if it was 1 the call is the build
  started in the state whose flag is already 0.
\<close>

theorem rebuildIfForced_clears_flag_first:
  assumes "rebuildIfForced env s = (Inr (), s')"
      and "forceRebuild s = 0 \<or> forceRebuild s = 1"
  shows "forceRebuild s' = 0
         \<and> (forceRebuild s = 1 \<longrightarrow> buildCRLs env True (s\<lparr>forceRebuild := 0\<rparr>) = (Inr (), s'))
         \<and> forceRebuild (snd (buildCRLs env forceNew s0)) = forceRebuild s0"
proof -
  have f: "forceRebuild (snd (buildCRLs env forceNew s0)) = forceRebuild s0"
    using buildCRLs_writes [of env forceNew s0] by (cases "buildCRLs env forceNew s0") simp
  show ?thesis
  proof (cases "forceRebuild s = 1")
    case True
    then have b: "buildCRLs env True (s\<lparr>forceRebuild := 0\<rparr>) = (Inr (), s')"
      using assms(1)
      by (simp add: rebuildIfForced_def doRebuild_def CompareAndSwapUint32_def Let_def)
    from buildCRLs_frame [OF b] have "forceRebuild s' = 0" by simp
    with b True f show ?thesis by simp
  next
    case False
    then show ?thesis using assms f by (auto simp: rebuildIfForced_def)
  qed
qed

theorem rebuildIfForced_clears_flag_first_witness:
  "fst (rebuildIfForced ex_env ex_state_forced) = Inr ()
   \<and> forceRebuild ex_state_forced = 1
   \<and> forceRebuild (snd (rebuildIfForced ex_env ex_state_forced)) = 0"
proof -
  have r: "fst (rebuildIfForced ex_env ex_state_forced) = Inr ()"
    by code_simp
  then have h1: "rebuildIfForced ex_env ex_state_forced
                   = (Inr (), snd (rebuildIfForced ex_env ex_state_forced))"
    by (metis prod.collapse)
  have h2: "forceRebuild ex_state_forced = 1"
    by (simp add: ex_state_forced_def)
  from rebuildIfForced_clears_flag_first [OF h1] h2 r show ?thesis by simp
qed

text \<open>
  Claim C9.  When the force-rebuild flag is 1 as \<^verbatim>\<open>rebuild(ctx, forceNew = false)\<close> takes the
  build mutex, the flag is cleared and the build runs with \<^verbatim>\<open>forceNew\<close> true: it does not take
  the early return for a disabled CRL, and with \<^verbatim>\<open>Disable\<close> set every CRL it signs and
  stores is the empty one.
\<close>

theorem rebuild_pending_flag_promotes_forceNew:
  assumes "forceRebuild s = 1"
  shows "rebuild env False s = buildCRLs env True (s\<lparr>forceRebuild := 0\<rparr>)
         \<and> forceRebuild (snd (rebuild env False s)) = 0
         \<and> rebuild env False s
             = (case getConfigWithUpdate env (s\<lparr>forceRebuild := 0\<rparr>) of
                  (Inl err, s1) \<Rightarrow>
                    (Inl (Errorf ''error building CRL: while updating config: '' err), s1)
                | (Inr cfg, s1) \<Rightarrow> buildCRLs_run env cfg True s1)
         \<and> (\<exists>w. storage (snd (rebuild env False s)) = w @ storage s
                \<and> list_all (crl_write_sat (empty_if_disabled (config (snd (rebuild env False s))))) w)"
proof -
  have e: "rebuild env False s = buildCRLs env True (s\<lparr>forceRebuild := 0\<rparr>)"
    using assms
    by (simp add: rebuild_def doRebuild_def CompareAndSwapUint32_def Let_def)
  obtain res s' where b: "buildCRLs env True (s\<lparr>forceRebuild := 0\<rparr>) = (res, s')"
    by (cases "buildCRLs env True (s\<lparr>forceRebuild := 0\<rparr>)")
  from buildCRLs_frame [OF b] e b
  have "forceRebuild (snd (rebuild env False s)) = 0"
    and "\<exists>w. storage (snd (rebuild env False s)) = w @ storage s
            \<and> list_all (crl_write_sat (empty_if_disabled (config (snd (rebuild env False s))))) w"
    by simp_all
  moreover have "buildCRLs env True (s\<lparr>forceRebuild := 0\<rparr>)
      = (case getConfigWithUpdate env (s\<lparr>forceRebuild := 0\<rparr>) of
           (Inl err, s1) \<Rightarrow>
             (Inl (Errorf ''error building CRL: while updating config: '' err), s1)
         | (Inr cfg, s1) \<Rightarrow> buildCRLs_run env cfg True s1)"
    by (simp add: buildCRLs_def split: prod.splits sum.splits)
  ultimately show ?thesis using e by simp
qed

theorem rebuild_pending_flag_promotes_forceNew_witness:
  "forceRebuild ex_state_pending = 1
   \<and> Disable (config (snd (rebuild ex_env_disabled False ex_state_pending)))
   \<and> fst (rebuild ex_env_disabled False ex_state_pending) = Inr ()
   \<and> log_get (storage (snd (rebuild ex_env_disabled False ex_state_pending))) ''crls/crl-''
       = Some (SCRL \<lparr>RevokedCertificates = [], Number = 2, ThisUpdate = ex_now,
                     NextUpdate = ex_now + 259200 * Second, SignatureAlgorithm = 4\<rparr> ex_ca)"
proof -
  have h: "forceRebuild ex_state_pending = 1"
    by (simp add: ex_state_pending_def)
  note e = rebuild_pending_flag_promotes_forceNew [OF h, of ex_env_disabled, THEN conjunct1]
  have "fst (buildCRLs ex_env_disabled True (ex_state_pending\<lparr>forceRebuild := 0\<rparr>)) = Inr ()
        \<and> Disable (config (snd (buildCRLs ex_env_disabled True (ex_state_pending\<lparr>forceRebuild := 0\<rparr>))))
        \<and> log_get (storage (snd (buildCRLs ex_env_disabled True (ex_state_pending\<lparr>forceRebuild := 0\<rparr>))))
              ''crls/crl-''
            = Some (SCRL \<lparr>RevokedCertificates = [], Number = 2, ThisUpdate = ex_now,
                     NextUpdate = ex_now + 259200 * Second, SignatureAlgorithm = 4\<rparr> ex_ca)"
    by code_simp
  with h show ?thesis unfolding e by blast
qed

section \<open>Revocation\<close>

lemma revokeCert_issuers_match:
  assumes "\<forall>i \<in> set issuers. issuer_certificate env i \<noteq> None"
      and "\<exists>i \<in> set issuers. \<exists>c. issuer_certificate env i = Some c
             \<and> serialFromCert env c = ReplaceAll_hyphen_colon (ToLower serial)"
  shows "\<exists>i \<in> set issuers.
           revokeCert_issuers env serial issuers m = Inl (Inr (Some (self_revocation_response i)))"
  using assms
proof (induction issuers arbitrary: m)
  case Nil
  then show ?case by simp
next
  case (Cons issuer rest)
  from Cons.prems(1) obtain c where c: "issuer_certificate env issuer = Some c"
    by auto
  then obtain entry bnd where
    f: "fetchCertBundleByIssuerId env issuer = Inr (entry, Some bnd)"
    and p: "parseCABundle env bnd = Inr (Some c)"
    by (auto simp: issuer_certificate_def split: sum.splits option.splits prod.splits)
  show ?case
  proof (cases "serialFromCert env c = ReplaceAll_hyphen_colon (ToLower serial)")
    case True
    then show ?thesis using f p by (simp add: self_revocation_response_def)
  next
    case False
    with Cons.prems c have
      "\<exists>i \<in> set rest. \<exists>c. issuer_certificate env i = Some c
             \<and> serialFromCert env c = ReplaceAll_hyphen_colon (ToLower serial)"
      by auto
    with Cons.IH [of "AList.update issuer c m"] Cons.prems(1)
    obtain i where "i \<in> set rest"
      and "revokeCert_issuers env serial rest (AList.update issuer c m)
             = Inl (Inr (Some (self_revocation_response i)))"
      by auto
    then show ?thesis using f p False by auto
  qed
qed

lemma revokeCert_issuers_ok:
  assumes "\<forall>i \<in> set issuers. \<exists>c. issuer_certificate env i = Some c
             \<and> serialFromCert env c \<noteq> ReplaceAll_hyphen_colon (ToLower serial)"
  shows "\<exists>icm. revokeCert_issuers env serial issuers m = Inr icm
           \<and> (\<forall>i. map_of icm i = (if i \<in> set issuers then issuer_certificate env i else map_of m i))"
  using assms
proof (induction issuers arbitrary: m)
  case Nil
  then show ?case by simp
next
  case (Cons issuer rest)
  from Cons.prems obtain c where c: "issuer_certificate env issuer = Some c"
    and n: "serialFromCert env c \<noteq> ReplaceAll_hyphen_colon (ToLower serial)"
    by auto
  then obtain entry bnd where
    f: "fetchCertBundleByIssuerId env issuer = Inr (entry, Some bnd)"
    and p: "parseCABundle env bnd = Inr (Some c)"
    by (auto simp: issuer_certificate_def split: sum.splits option.splits prod.splits)
  from Cons.IH [of "AList.update issuer c m"] Cons.prems
  obtain icm where i: "revokeCert_issuers env serial rest (AList.update issuer c m) = Inr icm"
    and m: "\<forall>i. map_of icm i
               = (if i \<in> set rest then issuer_certificate env i
                  else map_of (AList.update issuer c m) i)"
    by auto
  have "revokeCert_issuers env serial (issuer # rest) m = Inr icm"
    using f p n i by simp
  moreover have "\<forall>i. map_of icm i
        = (if i \<in> set (issuer # rest) then issuer_certificate env i else map_of m i)"
    using m c by (auto simp: update_conv')
  ultimately show ?case by blast
qed

lemma rebuild_writes:
  assumes "rebuild env f s = (res, s')"
  shows "\<exists>w. storage s' = w @ storage s \<and> writes_ok (build_write env (config s') (build_icm env)) (storage s) w"
  using assms buildCRLs_writes [of env _ "s\<lparr>forceRebuild := CompareAndSwapUint32 (forceRebuild s) 1 0\<rparr>" res s']
  by (simp add: rebuild_def doRebuild_def ignoreForceFlag_def Let_def)

lemma revokeCert_respond_writes:
  assumes "revokeCert_respond env r s = (res, s')"
  shows "\<exists>w. storage s' = w @ storage s \<and> writes_ok (build_write env (config s') (build_icm env)) (storage s) w"
proof -
  obtain r1 s1 where g: "getConfigWithUpdate env s = (r1, s1)"
    by (cases "getConfigWithUpdate env s")
  note fr = getConfigWithUpdate_frame [OF g]
  show ?thesis
  proof (cases r1)
    case (Inl e)
    then show ?thesis using assms g fr by (simp add: revokeCert_respond_def)
  next
    case (Inr cfg)
    show ?thesis
    proof (cases "AutoRebuild cfg")
      case True
      then show ?thesis using assms g fr Inr by (simp add: revokeCert_respond_def)
    next
      case False
      obtain r2 s2 where b: "rebuild env False s1 = (r2, s2)"
        by (cases "rebuild env False s1")
      then have "s' = s2"
        using assms g Inr False by (auto simp: revokeCert_respond_def split: sum.splits if_splits)
      with rebuild_writes [OF b] fr show ?thesis by simp
    qed
  qed
qed

lemma revokeCert_respond_success:
  assumes "getConfigWithUpdate env s = (Inr cfg, s1)"
      and "AutoRebuild cfg \<or> fst (rebuild env False s1) = Inr ()"
  shows "revokeCert_respond env r s
           = (Inr (Some \<lparr>resp_Data =
                           (''revocation_time'', RInt (RevocationTime r))
                           # (if \<not> IsZero (RevocationTimeUTC r)
                              then [(''revocation_time_rfc3339'',
                                     RStr (FormatRFC3339Nano env (RevocationTimeUTC r)))]
                              else []),
                         resp_Warnings = []\<rparr>),
              if AutoRebuild cfg then s1 else snd (rebuild env False s1))"
  using assms
  by (cases "rebuild env False s1") (auto simp: revokeCert_respond_def)

lemma revocation_time_response_not_error:
  "\<not> IsError \<lparr>resp_Data = (''revocation_time'', v) # rest, resp_Warnings = ws\<rparr>"
  by (simp add: IsError_def)

lemma ex_issuers_of: "issuers_of ex_env = Inr [''issuer-1'', ''issuer-2'']"
  by (simp add: issuers_of_def ex_env_def)

lemma ex_issuer_certificate:
  "issuer_certificate ex_env ''issuer-1'' = Some ex_ca"
  "issuer_certificate ex_env ''issuer-2'' = Some ex_ca"
  by (simp_all add: issuer_certificate_def ex_env_def)

lemma ex_serials:
  "serialFromCert ex_env ex_ca = ''01''"
  "ReplaceAll_hyphen_colon (ToLower ''01'') = ''01''"
  "ReplaceAll_hyphen_colon (ToLower ''1A'') = ''1a''"
  "normalizeSerial ex_env ''1A'' = ''1a''"
  by code_simp+

text \<open>
  Claim C10.  The check against the issuers' serials comes before the look-up of an
  existing revocation entry: on a mount that is not tainted and whose issuers all
  load, a serial that (lower-cased, hyphens turned into colons) is the serial of an
  issuer's certificate gets the user error of that issuer, whatever the storage holds,
  so also when it holds a revocation entry for that serial; nothing is written.
\<close>

theorem revokeCert_issuer_serial_rejected:
  assumes "\<not> Tainted env"
      and "issuers_of env = Inr issuers"
      and "\<forall>i \<in> set issuers. issuer_certificate env i \<noteq> None"
      and "\<exists>i \<in> set issuers. \<exists>c. issuer_certificate env i = Some c
             \<and> serialFromCert env c = ReplaceAll_hyphen_colon (ToLower serial)"
  shows "\<exists>i \<in> set issuers.
           revokeCert env serial fromLease s = (Inr (Some (self_revocation_response i)), s)"
proof -
  from revokeCert_issuers_match [OF assms(3,4), of "[]"]
  obtain i where i: "i \<in> set issuers"
    and r: "revokeCert_issuers env serial issuers [] = Inl (Inr (Some (self_revocation_response i)))"
    by auto
  have "revokeCert env serial fromLease s = (Inr (Some (self_revocation_response i)), s)"
    using assms(1,2) r
    by (auto simp: revokeCert_def issuers_of_def split: if_splits sum.splits)
  with i show ?thesis by blast
qed

theorem revokeCert_issuer_serial_rejected_witness:
  "fetchCertBySerial ex_env (storage ex_state_issuer_entry) revokedPath ''01'' \<noteq> Inr None
   \<and> (\<exists>i \<in> set [''issuer-1'', ''issuer-2''].
         revokeCert ex_env ''01'' False ex_state_issuer_entry
           = (Inr (Some (self_revocation_response i)), ex_state_issuer_entry))"
proof -
  have t: "\<not> Tainted ex_env"
    by (simp add: ex_env_def)
  have a: "\<forall>i \<in> set [''issuer-1'', ''issuer-2'']. issuer_certificate ex_env i \<noteq> None"
    by (simp add: ex_issuer_certificate)
  have m: "\<exists>i \<in> set [''issuer-1'', ''issuer-2'']. \<exists>c. issuer_certificate ex_env i = Some c
             \<and> serialFromCert ex_env c = ReplaceAll_hyphen_colon (ToLower ''01'')"
    by (simp add: ex_issuer_certificate ex_serials)
  have "fetchCertBySerial ex_env (storage ex_state_issuer_entry) revokedPath ''01'' \<noteq> Inr None"
    by code_simp
  with revokeCert_issuer_serial_rejected [OF t ex_issuers_of a m] show ?thesis
    by blast
qed

text \<open>
  Claim C3.  On a mount that is not tainted, whose issuers all load and none of which has
  the serial: if the look-up finds no revocation entry for the serial, finds the
  certificate under \<^verbatim>\<open>certs/\<close> and it parses, and its \<^verbatim>\<open>NotAfter\<close> is before now plus two seconds, then
  \<^verbatim>\<open>revokeCert\<close> returns a response with the warning that the certificate has already
  expired, and the state is the one it started from: no revocation entry was written.
\<close>

theorem revokeCert_expired_warns:
  assumes "\<not> Tainted env"
      and "issuers_of env = Inr issuers"
      and "\<forall>i \<in> set issuers. \<exists>c. issuer_certificate env i = Some c
             \<and> serialFromCert env c \<noteq> ReplaceAll_hyphen_colon (ToLower serial)"
      and "fetchCertBySerial env (storage s) revokedPath serial = Inr None"
      and "fetchCertBySerial env (storage s) ''certs/'' serial = Inr (Some (SBytes der))"
      and "ParseCertificate env der = Inr cert"
      and "NotAfter cert < Now env + 2 * Second"
  shows "revokeCert env serial fromLease s
           = (Inr (Some \<lparr>resp_Data = [],
                         resp_Warnings =
                           [''certificate with serial '' @ serial
                            @ '' already expired; refusing to add to CRL'']\<rparr>), s)"
proof -
  from revokeCert_issuers_ok [OF assms(3), of "[]"]
  obtain icm where r: "revokeCert_issuers env serial issuers [] = Inr icm"
    by auto
  have st: "revokeCert_store env serial fromLease icm zero_revocationInfo s
          = (Inl (Inr (Some \<lparr>resp_Data = [],
                         resp_Warnings =
                           [''certificate with serial '' @ serial
                            @ '' already expired; refusing to add to CRL'']\<rparr>)), s)"
    using assms(5,6,7) by (simp add: revokeCert_store_def)
  show ?thesis
    using assms(1,2,4) r st
    by (auto simp: revokeCert_def issuers_of_def split: if_splits sum.splits)
qed

theorem revokeCert_expired_warns_witness:
  "NotAfter ex_leaf < Now ex_env_late + 2 * Second
   \<and> revokeCert ex_env_late ''1A'' False ex_state
       = (Inr (Some \<lparr>resp_Data = [],
                     resp_Warnings =
                       [''certificate with serial 1A already expired; refusing to add to CRL'']\<rparr>),
          ex_state)"
proof -
  have t: "\<not> Tainted ex_env_late"
    by (simp add: ex_env_late_def ex_env_def)
  have i: "issuers_of ex_env_late = Inr [''issuer-1'', ''issuer-2'']"
    by (simp add: issuers_of_def ex_env_late_def ex_env_def)
  have "issuer_certificate ex_env_late ''issuer-1'' = Some ex_ca"
    and "issuer_certificate ex_env_late ''issuer-2'' = Some ex_ca"
    and "serialFromCert ex_env_late ex_ca = ''01''"
    by (simp_all add: issuer_certificate_def ex_env_late_def ex_env_def ex_ca_def)
  then have a: "\<forall>i \<in> set [''issuer-1'', ''issuer-2'']. \<exists>c. issuer_certificate ex_env_late i = Some c
             \<and> serialFromCert ex_env_late c \<noteq> ReplaceAll_hyphen_colon (ToLower ''1A'')"
    by (simp add: ex_serials)
  have r: "fetchCertBySerial ex_env_late (storage ex_state) revokedPath ''1A'' = Inr None"
    by code_simp
  have c: "fetchCertBySerial ex_env_late (storage ex_state) ''certs/'' ''1A''
             = Inr (Some (SBytes ''der-leaf''))"
    by code_simp
  have p: "ParseCertificate ex_env_late ''der-leaf'' = Inr ex_leaf"
    by (simp add: ex_env_late_def ex_env_def)
  have e: "NotAfter ex_leaf < Now ex_env_late + 2 * Second"
    by (simp add: ex_env_late_def ex_env_def ex_leaf_def Second_def)
  from revokeCert_expired_warns [OF t i a r c p e, of False] e show ?thesis
    by simp
qed

text \<open>
  Claim C8.  Revoking a serial that already has a revocation entry \<open>r\<close> succeeds: on a mount
  that is not tainted, whose issuers all load and none of which has the serial, when the
  configuration loads and the CRL rebuild that ends the call succeeds (or is left to
  \<^verbatim>\<open>AutoRebuild\<close>), \<^verbatim>\<open>revokeCert\<close> returns without error a response that is not an error
  response and carries the \<^verbatim>\<open>revocation_time\<close> stored in \<open>r\<close>.  The call is the end of
  \<^verbatim>\<open>revokeCert\<close> run on the decoded \<open>r\<close>: the certificate is not loaded, its expiry not
  looked at, no entry stored.  Whatever the call writes is a write of the rebuild: a
  revocation entry is only ever replaced by itself with another issuer, so no new entry
  appears; with \<^verbatim>\<open>AutoRebuild\<close> nothing is written at all.
\<close>

theorem revokeCert_already_revoked:
  assumes "\<not> Tainted env"
      and "issuers_of env = Inr issuers"
      and "\<forall>i \<in> set issuers. \<exists>c. issuer_certificate env i = Some c
             \<and> serialFromCert env c \<noteq> ReplaceAll_hyphen_colon (ToLower serial)"
      and "fetchCertBySerial env (storage s) revokedPath serial = Inr (Some (SRevInfo r))"
      and "getConfigWithUpdate env s = (Inr cfg, s1)"
      and "AutoRebuild cfg \<or> fst (rebuild env False s1) = Inr ()"
      and "revokeCert env serial fromLease s = (res, s')"
  shows "res = Inr (Some \<lparr>resp_Data =
                            (''revocation_time'', RInt (RevocationTime r))
                            # (if \<not> IsZero (RevocationTimeUTC r)
                               then [(''revocation_time_rfc3339'',
                                      RStr (FormatRFC3339Nano env (RevocationTimeUTC r)))]
                               else []),
                          resp_Warnings = []\<rparr>)
         \<and> (\<forall>resp. res = Inr (Some resp) \<longrightarrow> \<not> IsError resp)
         \<and> revokeCert env serial fromLease s = revokeCert_respond env r s
         \<and> s' = (if AutoRebuild cfg then s1 else snd (rebuild env False s1))
         \<and> (AutoRebuild cfg \<longrightarrow> storage s' = storage s)
         \<and> (\<exists>w. storage s' = w @ storage s
                \<and> writes_ok (build_write env (config s') (build_icm env)) (storage s) w)"
proof -
  from revokeCert_issuers_ok [OF assms(3), of "[]"]
  obtain icm where i: "revokeCert_issuers env serial issuers [] = Inr icm"
    by auto
  have e: "revokeCert env serial fromLease s = revokeCert_respond env r s"
    using assms(1,2,4) i
    by (auto simp: revokeCert_def issuers_of_def DecodeJSON_revocationInfo_def
             split: if_splits sum.splits)
  with assms(7) have p: "revokeCert_respond env r s = (res, s')" by simp
  note q = revokeCert_respond_success [OF assms(5,6), of r]
  from p q have r1: "res = Inr (Some \<lparr>resp_Data =
                            (''revocation_time'', RInt (RevocationTime r))
                            # (if \<not> IsZero (RevocationTimeUTC r)
                               then [(''revocation_time_rfc3339'',
                                      RStr (FormatRFC3339Nano env (RevocationTimeUTC r)))]
                               else []),
                          resp_Warnings = []\<rparr>)"
    and r2: "s' = (if AutoRebuild cfg then s1 else snd (rebuild env False s1))"
    by simp_all
  from r1 have r3: "\<forall>resp. res = Inr (Some resp) \<longrightarrow> \<not> IsError resp"
    by (simp add: revocation_time_response_not_error)
  from r2 getConfigWithUpdate_frame [OF assms(5)]
  have r4: "AutoRebuild cfg \<longrightarrow> storage s' = storage s" by simp
  from r1 r2 r3 r4 e revokeCert_respond_writes [OF p] show ?thesis
    by blast
qed

theorem revokeCert_already_revoked_witness:
  "fst (getConfigWithUpdate ex_env ex_state_pending) = Inr ex_config
   \<and> \<not> AutoRebuild ex_config
   \<and> fst (rebuild ex_env False (snd (getConfigWithUpdate ex_env ex_state_pending))) = Inr ()
   \<and> fst (revokeCert ex_env ''1A'' False ex_state_pending)
       = Inr (Some \<lparr>resp_Data =
                      [(''revocation_time'', RInt 1664403200),
                       (''revocation_time_rfc3339'', RStr ''2022-09-23T12:00:00Z'')],
                    resp_Warnings = []\<rparr>)
   \<and> \<not> IsError \<lparr>resp_Data =
                      [(''revocation_time'', RInt 1664403200),
                       (''revocation_time_rfc3339'', RStr ''2022-09-23T12:00:00Z'')],
                    resp_Warnings = []\<rparr>
   \<and> revokeCert ex_env ''1A'' False ex_state_pending
     = revokeCert_respond ex_env
         \<lparr>CertificateBytes = ''der-leaf'', RevocationTime = 1664403200,
          RevocationTimeUTC = ex_now, CertificateIssuer = ''issuer-1''\<rparr> ex_state_pending"
proof -
  have t: "\<not> Tainted ex_env"
    by (simp add: ex_env_def)
  have a: "\<forall>i \<in> set [''issuer-1'', ''issuer-2'']. \<exists>c. issuer_certificate ex_env i = Some c
             \<and> serialFromCert ex_env c \<noteq> ReplaceAll_hyphen_colon (ToLower ''1A'')"
    by (simp add: ex_issuer_certificate ex_serials)
  have r: "fetchCertBySerial ex_env (storage ex_state_pending) revokedPath ''1A''
             = Inr (Some (SRevInfo \<lparr>CertificateBytes = ''der-leaf'', RevocationTime = 1664403200,
                                    RevocationTimeUTC = ex_now, CertificateIssuer = ''issuer-1''\<rparr>))"
    by code_simp
  have g: "fst (getConfigWithUpdate ex_env ex_state_pending) = Inr ex_config"
    by code_simp
  then have g': "getConfigWithUpdate ex_env ex_state_pending
                   = (Inr ex_config, snd (getConfigWithUpdate ex_env ex_state_pending))"
    by (metis prod.collapse)
  have n: "\<not> AutoRebuild ex_config"
    by (simp add: ex_config_def)
  have b: "fst (rebuild ex_env False (snd (getConfigWithUpdate ex_env ex_state_pending))) = Inr ()"
    by code_simp
  have z: "\<not> IsZero (RevocationTimeUTC
             \<lparr>CertificateBytes = ''der-leaf'', RevocationTime = 1664403200,
              RevocationTimeUTC = ex_now, CertificateIssuer = ''issuer-1''\<rparr>)"
    by code_simp
  have f: "FormatRFC3339Nano ex_env ex_now = ''2022-09-23T12:00:00Z''"
    by (simp add: ex_env_def)
  note th = revokeCert_already_revoked [OF t ex_issuers_of a r g' disjI2 [OF b]
              prod.collapse [symmetric], of False]
  from th [THEN conjunct1] have c1: "fst (revokeCert ex_env ''1A'' False ex_state_pending)
       = Inr (Some \<lparr>resp_Data =
                      [(''revocation_time'', RInt 1664403200),
                       (''revocation_time_rfc3339'', RStr ''2022-09-23T12:00:00Z'')],
                    resp_Warnings = []\<rparr>)"
    using z f by simp
  have c2: "\<not> IsError \<lparr>resp_Data =
                      [(''revocation_time'', RInt 1664403200),
                       (''revocation_time_rfc3339'', RStr ''2022-09-23T12:00:00Z'')],
                    resp_Warnings = []\<rparr>"
    by (rule th [THEN conjunct2, THEN conjunct1, rule_format, OF c1])
  from th [THEN conjunct2, THEN conjunct2, THEN conjunct1] have c3: "revokeCert ex_env ''1A'' False ex_state_pending
     = revokeCert_respond ex_env
         \<lparr>CertificateBytes = ''der-leaf'', RevocationTime = 1664403200,
          RevocationTimeUTC = ex_now, CertificateIssuer = ''issuer-1''\<rparr> ex_state_pending"
    .
  from g n b c1 c2 c3 show ?thesis by blast
qed
section \<open>Equivalent issuers share a CRL\<close>

lemma go_range_sound: "(k, v) \<in> set (go_range env m) \<Longrightarrow> map_of m k = Some v"
  by (auto simp: go_range_def map_filter_def split: option.splits)

lemma go_range_complete:
  "map_of m k = Some v \<Longrightarrow> k \<in> set (range_order env (map fst m)) \<Longrightarrow> (k, v) \<in> set (go_range env m)"
  by (force simp: go_range_def map_filter_def)

lemma map_of_map_append:
  "map_of (map_append k x m) k' = (if k' = k then Some ((case map_of m k of None \<Rightarrow> [] | Some xs \<Rightarrow> xs) @ [x]) else map_of m k')"
  by (simp add: map_append_def update_conv')

lemma buildCRLs_issuers_cells:
  assumes "buildCRLs_issuers env issuers (iem, icm, ksm) = Inr (iem', icm', ksm')"
  shows "set (cell ksm' k subj)
           = set (cell ksm k subj) \<union> {i \<in> set issuers. class_of env i = Some (k, subj)}"
  using assms
proof (induction issuers arbitrary: iem icm ksm)
  case Nil
  then show ?case by simp
next
  case (Cons issuer rest)
  show ?case
  proof (cases "class_of env issuer")
    case None
    then have "buildCRLs_issuers env rest (iem, icm, ksm) = Inr (iem', icm', ksm')"
      using Cons.prems
      by (auto simp: class_of_def split: sum.splits prod.splits if_splits)
    from Cons.IH [OF this] None show ?thesis by auto
  next
    case (Some a)
    obtain k0 subj0 where a: "a = (k0, subj0)" by (cases a)
    from Some a obtain e b c where f: "fetchCertBundleByIssuerId env issuer = Inr (e, b)"
      and e: "length (KeyID e) \<noteq> 0" "CRLSigningUsage e" "GetCertificate e = Inr c"
      and k: "k0 = KeyID e" "subj0 = RawSubject c"
      by (auto simp: class_of_def split: sum.splits prod.splits if_splits)
    define ksm1 where "ksm1 = (if map_of ksm k0 = None then AList.update k0 [] ksm else ksm)"
    define inner where "inner = (case map_of ksm1 k0 of None \<Rightarrow> [] | Some m \<Rightarrow> m)"
    define ksm2 where "ksm2 = AList.update k0 (map_append subj0 issuer inner) ksm1"
    have r: "buildCRLs_issuers env rest
               (AList.update issuer e iem, AList.update issuer c icm, ksm2) = Inr (iem', icm', ksm')"
      using Cons.prems f e k by (auto simp: ksm2_def inner_def ksm1_def Let_def)
    have c2: "cell ksm2 k subj
                = (if (k, subj) = (k0, subj0) then cell ksm k subj @ [issuer] else cell ksm k subj)"
      by (auto simp: cell_def ksm2_def inner_def ksm1_def update_conv' map_of_map_append
               split: option.splits)
    from Cons.IH [OF r] c2 Some a show ?thesis by auto
  qed
qed

lemma equivalence_classes_sound:
  assumes "l \<in> set (equivalence_classes env ksm)"
  shows "\<exists>k subj. l = cell ksm k subj"
proof -
  from assms obtain k inner subj where "(k, inner) \<in> set (go_range env ksm)"
    and "(subj, l) \<in> set (go_range env inner)"
    by (auto simp: equivalence_classes_def)
  then have "map_of ksm k = Some inner" and "map_of inner subj = Some l"
    by (auto dest: go_range_sound)
  then have "l = cell ksm k subj" by (simp add: cell_def)
  then show ?thesis by blast
qed

lemma equivalence_classes_complete:
  assumes "range_covers env" and "cell ksm k subj \<noteq> []"
  shows "cell ksm k subj \<in> set (equivalence_classes env ksm)"
proof -
  from assms(2) obtain inner l where m: "map_of ksm k = Some inner" "map_of inner subj = Some l"
    and l: "cell ksm k subj = l"
    by (auto simp: cell_def split: option.splits)
  have "k \<in> set (map fst ksm)" and "subj \<in> set (map fst inner)"
    using m by (auto dest!: map_of_SomeD intro: rev_image_eqI)
  with assms(1) have "k \<in> set (range_order env (map fst ksm))"
    and "subj \<in> set (range_order env (map fst inner))"
    unfolding range_covers_def by blast+
  with m have "(k, inner) \<in> set (go_range env ksm)" and "(subj, l) \<in> set (go_range env inner)"
    by (auto intro: go_range_complete)
  then show ?thesis unfolding l equivalence_classes_def by force
qed

lemma map_of_fold_update:
  "map_of (fold (\<lambda>i m. AList.update i c m) l m) x = (if x \<in> set l then Some c else map_of m x)"
  by (induction l arbitrary: m) (auto simp: update_conv')

lemma buildCRLs_class_idmap:
  assumes "buildCRLs_class env g f dflt un rcm l cfg s = (Inr cfg', s')"
  shows "\<exists>c. \<forall>x. map_of (IssuerIDCRLMap cfg') x
                   = (if x \<in> set l then Some c else map_of (IssuerIDCRLMap cfg) x)"
proof (cases l)
  case Nil
  then show ?thesis using assms by (simp add: buildCRLs_class_def)
next
  case (Cons first others)
  obtain c where "IssuerIDCRLMap cfg'
                    = fold (\<lambda>issuerId m. AList.update issuerId c m) l (IssuerIDCRLMap cfg)"
    using assms Cons unfolding buildCRLs_class_def Let_def
    by (auto simp del: buildCRLs_members.simps split: sum.splits prod.splits)
  then show ?thesis by (auto simp: map_of_fold_update)
qed


lemma buildCRLs_classes_idmap:
  assumes "buildCRLs_classes env g f dflt un rcm classes cfg s = (Inr cfg', s')"
      and "\<forall>l \<in> set classes. A \<in> set l \<longleftrightarrow> B \<in> set l"
      and "(\<exists>l \<in> set classes. A \<in> set l)
           \<or> (\<exists>c. map_of (IssuerIDCRLMap cfg) A = Some c \<and> map_of (IssuerIDCRLMap cfg) B = Some c)"
  shows "\<exists>c. map_of (IssuerIDCRLMap cfg') A = Some c \<and> map_of (IssuerIDCRLMap cfg') B = Some c"
  using assms
proof (induction classes arbitrary: cfg s)
  case Nil
  then show ?case by simp
next
  case (Cons l rest)
  obtain r1 s1 where c: "buildCRLs_class env g f dflt un rcm l cfg s = (r1, s1)"
    by (cases "buildCRLs_class env g f dflt un rcm l cfg s")
  with Cons.prems(1) obtain cfg1 where r1: "r1 = Inr cfg1"
    and rest: "buildCRLs_classes env g f dflt un rcm rest cfg1 s1 = (Inr cfg', s')"
    by (cases r1) auto
  from buildCRLs_class_idmap [OF c [unfolded r1]]
  obtain c1 where m: "\<And>x. map_of (IssuerIDCRLMap cfg1) x
                         = (if x \<in> set l then Some c1 else map_of (IssuerIDCRLMap cfg) x)"
    by blast
  have ab: "A \<in> set l \<longleftrightarrow> B \<in> set l" using Cons.prems(2) by simp
  have "(\<exists>l \<in> set rest. A \<in> set l)
        \<or> (\<exists>c. map_of (IssuerIDCRLMap cfg1) A = Some c \<and> map_of (IssuerIDCRLMap cfg1) B = Some c)"
    using Cons.prems(3) ab m by auto
  with Cons.IH [OF rest] Cons.prems(2) show ?case by simp
qed

lemma map_of_prune_IssuerIDCRLMap:
  assumes "x \<in> set issuers"
  shows "map_of (prune_IssuerIDCRLMap env issuers idmap) x = map_of idmap x"
proof -
  have "map_of (fold (\<lambda>(mapIssuerId, c) m.
                        if list_ex (\<lambda>listedIssuerId. mapIssuerId = listedIssuerId) issuers then m
                        else AList.delete mapIssuerId m) xs m) x = map_of m x" for xs m
  proof (induction xs arbitrary: m)
    case Nil
    show ?case by simp
  next
    case (Cons a xs)
    obtain k c where a: "a = (k, c)" by (cases a)
    show ?case
      using assms Cons.IH a by (auto simp: list_ex_iff delete_conv')
  qed
  then show ?thesis by (simp add: prune_IssuerIDCRLMap_def)
qed

lemma setLocalCRLConfig_index:
  "setLocalCRLConfig env cfg s = (Inr u, s') \<Longrightarrow> index_of env s' = cfg"
  by (auto simp: setLocalCRLConfig_def storage_Put_def index_of_def split: option.splits)

lemma buildCRLs_run_persists:
  assumes "buildCRLs_run env g f s = (Inr (), s')"
      and "\<not> useLegacyBundleCaStorage env"
  obtains issuers ic iem icm ksm un rcm cfg0 cfg1 s1 s2 where
    "listIssuers env = Inr issuers"
    "buildCRLs_issuers env issuers ([], [], []) = Inr (iem, icm, ksm)"
    "buildCRLs_classes env g f (DefaultIssuerId (ic :: issuerConfigEntry)) un rcm
       (equivalence_classes env ksm) cfg0 s1 = (Inr cfg1, s2)"
    "index_of env s'
       = cfg1\<lparr>IssuerIDCRLMap := prune_IssuerIDCRLMap env issuers (IssuerIDCRLMap cfg1)\<rparr>"
proof -
  note r = assms(1) [unfolded buildCRLs_run_def Let_def]
  obtain issuers where 1: "listIssuers env = Inr issuers"
    using r assms(2) by (cases "listIssuers env") auto
  obtain ic where 2: "getIssuersConfig env = Inr ic"
    using r assms(2) 1 by (cases "getIssuersConfig env") auto
  obtain iem icm ksm where 3: "buildCRLs_issuers env issuers ([], [], []) = Inr (iem, icm, ksm)"
    using r assms(2) 1 2 by (cases "buildCRLs_issuers env issuers ([], [], [])") auto
  obtain cfg0 where 4: "getLocalCRLConfig env s = Inr cfg0"
    using r assms(2) 1 2 3 by (cases "getLocalCRLConfig env s") auto
  obtain un rcm0 s1 where 5: "getRevokedCertEntries env icm s = (Inr (un, rcm0), s1)"
    using r assms(2) 1 2 3 4
    by (cases "getRevokedCertEntries env icm s"; cases "fst (getRevokedCertEntries env icm s)") auto
  obtain rcm where 6: "augmentWithRevokedIssuers env iem icm rcm0 = Inr rcm"
    using r assms(2) 1 2 3 4 5 by (cases "augmentWithRevokedIssuers env iem icm rcm0") auto
  obtain cfg1 s2 where 7: "buildCRLs_classes env g f (DefaultIssuerId ic) un rcm
                             (equivalence_classes env ksm) cfg0 s1 = (Inr cfg1, s2)"
    using r assms(2) 1 2 3 4 5 6
    by (cases "buildCRLs_classes env g f (DefaultIssuerId ic) un rcm
                 (equivalence_classes env ksm) cfg0 s1";
        cases "fst (buildCRLs_classes env g f (DefaultIssuerId ic) un rcm
                 (equivalence_classes env ksm) cfg0 s1)") auto
  define cfg2 where
    "cfg2 = cfg1\<lparr>IssuerIDCRLMap := prune_IssuerIDCRLMap env issuers (IssuerIDCRLMap cfg1)\<rparr>"
  obtain s3 where 8: "delete_unreferenced env (IssuerIDCRLMap cfg2)
                        (go_range env (CRLNumberMap cfg2)) s2 = (Inr (), s3)"
    using r assms(2) 1 2 3 4 5 6 7 unfolding cfg2_def
    by (cases "delete_unreferenced env (IssuerIDCRLMap cfg2) (go_range env (CRLNumberMap cfg2)) s2";
        cases "fst (delete_unreferenced env (IssuerIDCRLMap cfg2)
                      (go_range env (CRLNumberMap cfg2)) s2)")
       (auto simp: cfg2_def)
  have "setLocalCRLConfig env cfg2 s3 = (Inr (), s')"
    using r assms(2) 1 2 3 4 5 6 7 8 unfolding cfg2_def
    by (cases "setLocalCRLConfig env cfg2 s3"; cases "fst (setLocalCRLConfig env cfg2 s3)")
       (auto simp: cfg2_def)
  then have "index_of env s' = cfg2" by (rule setLocalCRLConfig_index)
  then show thesis unfolding cfg2_def by (rule that [OF 1 3 7])
qed

text \<open>
  Claim C2, as amended.  Let the issuers \<open>A\<close> and \<open>B\<close> be among the issuers of the mount,
  with the same non-empty key, the same raw subject, both with the CRL-signing usage.
  After every successful \<^verbatim>\<open>buildCRLs\<close> that does not return early for a disabled CRL
  (\<^verbatim>\<open>Disable && !forceNew\<close>), the index in storage has the same CRL-ID for \<open>A\<close> and \<open>B\<close>;
  outside the legacy mode both are mapped.
\<close>

theorem buildCRLs_equivalent_issuers_share_crl:
  assumes "getConfigWithUpdate env s = (Inr g, s0)"
      and "\<not> (Disable g \<and> \<not> forceNew)"
      and "buildCRLs env forceNew s = (Inr (), s')"
      and "range_covers env"
      and "issuers_of env = Inr issuers"
      and "A \<in> set issuers" and "B \<in> set issuers"
      and "class_of env A = Some (k, subj)" and "class_of env B = Some (k, subj)"
  shows "crl_of (index_of env s') A = crl_of (index_of env s') B
         \<and> (\<not> useLegacyBundleCaStorage env \<longrightarrow>
              (\<exists>c. map_of (IssuerIDCRLMap (index_of env s')) A = Some c
                   \<and> map_of (IssuerIDCRLMap (index_of env s')) B = Some c))"
proof (cases "useLegacyBundleCaStorage env")
  case True
  then have "A = B" using assms(5,6,7) by (auto simp: issuers_of_def)
  then show ?thesis using True by simp
next
  case False
  have run: "buildCRLs_run env g forceNew s0 = (Inr (), s')"
    using assms(1,2,3) by (auto simp: buildCRLs_def)
  obtain issuers' ic iem icm ksm un rcm cfg0 cfg1 s1 s2 where
    l: "listIssuers env = Inr issuers'"
    and i': "buildCRLs_issuers env issuers' ([], [], []) = Inr (iem, icm, ksm)"
    and c: "buildCRLs_classes env g forceNew (DefaultIssuerId (ic :: issuerConfigEntry)) un rcm
              (equivalence_classes env ksm) cfg0 s1 = (Inr cfg1, s2)"
    and x': "index_of env s'
              = cfg1\<lparr>IssuerIDCRLMap := prune_IssuerIDCRLMap env issuers' (IssuerIDCRLMap cfg1)\<rparr>"
    by (rule buildCRLs_run_persists [OF run False])
  have "issuers' = issuers" using l assms(5) False by (simp add: issuers_of_def)
  note i = i' [unfolded this] and x = x' [unfolded this]
  have cells: "\<And>k' subj'. set (cell ksm k' subj')
                 = {i \<in> set issuers. class_of env i = Some (k', subj')}"
    using buildCRLs_issuers_cells [OF i] by (simp add: cell_def)
  have same: "\<forall>l \<in> set (equivalence_classes env ksm). A \<in> set l \<longleftrightarrow> B \<in> set l"
  proof
    fix l assume "l \<in> set (equivalence_classes env ksm)"
    then obtain k' subj' where l: "l = cell ksm k' subj'"
      using equivalence_classes_sound by blast
    have "A \<in> set l \<longleftrightarrow> (k', subj') = (k, subj)"
      unfolding l cells using assms(6,8) by auto
    moreover have "B \<in> set l \<longleftrightarrow> (k', subj') = (k, subj)"
      unfolding l cells using assms(7,9) by auto
    ultimately show "A \<in> set l \<longleftrightarrow> B \<in> set l" by simp
  qed
  have A: "A \<in> set (cell ksm k subj)"
    unfolding cells using assms(6,8) by simp
  then have "cell ksm k subj \<noteq> []" by auto
  then have "cell ksm k subj \<in> set (equivalence_classes env ksm)"
    by (rule equivalence_classes_complete [OF assms(4)])
  with A have "(\<exists>l \<in> set (equivalence_classes env ksm). A \<in> set l)
               \<or> (\<exists>c. map_of (IssuerIDCRLMap cfg0) A = Some c \<and> map_of (IssuerIDCRLMap cfg0) B = Some c)"
    by blast
  from buildCRLs_classes_idmap [OF c same this]
  obtain c1 where c1: "map_of (IssuerIDCRLMap cfg1) A = Some c1"
    "map_of (IssuerIDCRLMap cfg1) B = Some c1"
    by blast
  have "map_of (IssuerIDCRLMap (index_of env s')) A = Some c1"
    and "map_of (IssuerIDCRLMap (index_of env s')) B = Some c1"
    unfolding x using c1 assms(6,7) by (simp_all add: map_of_prune_IssuerIDCRLMap)
  then show ?thesis by (simp add: crl_of_def)
qed

theorem buildCRLs_equivalent_issuers_share_crl_witness:
  "class_of ex_env ''issuer-1'' = Some (''key-1'', ''CN=root'')
   \<and> class_of ex_env ''issuer-2'' = Some (''key-1'', ''CN=root'')
   \<and> map_of (IssuerIDCRLMap (index_of ex_env (snd (buildCRLs ex_env False ex_state)))) ''issuer-1''
       = Some ''crl-''
   \<and> map_of (IssuerIDCRLMap (index_of ex_env (snd (buildCRLs ex_env False ex_state)))) ''issuer-2''
       = Some ''crl-''"
proof -
  have g: "getConfigWithUpdate ex_env ex_state
             = (Inr ex_config, ex_state\<lparr>config := ex_config, dirty := False\<rparr>)"
    by (simp add: getConfigWithUpdate_def reloadConfigIfRequired_def ex_env_def ex_state_def)
  have d: "\<not> (Disable ex_config \<and> \<not> False)"
    by (simp add: ex_config_def)
  have "fst (buildCRLs ex_env False ex_state) = Inr ()"
    by code_simp
  then have b: "buildCRLs ex_env False ex_state = (Inr (), snd (buildCRLs ex_env False ex_state))"
    by (metis prod.collapse)
  have r: "range_covers ex_env"
    by (simp add: range_covers_def ex_env_def)
  have c1: "class_of ex_env ''issuer-1'' = Some (''key-1'', ''CN=root'')"
    and c2: "class_of ex_env ''issuer-2'' = Some (''key-1'', ''CN=root'')"
    by (simp_all add: class_of_def ex_env_def ex_entry_def ex_ca_def)
  have u: "\<not> useLegacyBundleCaStorage ex_env"
    by (simp add: ex_env_def)
  have "map_of (IssuerIDCRLMap (index_of ex_env (snd (buildCRLs ex_env False ex_state)))) ''issuer-1''
          = Some ''crl-''"
    by code_simp
  with buildCRLs_equivalent_issuers_share_crl [OF g d b r ex_issuers_of _ _ c1 c2] u c1 c2
  show ?thesis by auto
qed

text \<open>
  Claim C2 as it is stated fails on the early return for a disabled CRL: the run is
  successful and leaves the index as it was, with \<open>issuer-1\<close> mapped and the equivalent
  \<open>issuer-2\<close>, added since, not mapped.
\<close>

theorem buildCRLs_disabled_leaves_index_apart:
  "fst (buildCRLs ex_env_disabled False ex_state_stale) = Inr ()
   \<and> issuers_of ex_env_disabled = Inr [''issuer-1'', ''issuer-2'']
   \<and> class_of ex_env_disabled ''issuer-1'' = Some (''key-1'', ''CN=root'')
   \<and> class_of ex_env_disabled ''issuer-2'' = Some (''key-1'', ''CN=root'')
   \<and> crl_of (index_of ex_env_disabled (snd (buildCRLs ex_env_disabled False ex_state_stale)))
         ''issuer-1'' = ''crl-''
   \<and> crl_of (index_of ex_env_disabled (snd (buildCRLs ex_env_disabled False ex_state_stale)))
         ''issuer-2'' = []"
  by code_simp

section \<open>Revocation entries and their issuers\<close>

lemma associate_scan_Some:
  "associate_scan env cert xs = Some j \<Longrightarrow> \<exists>ic. (j, ic) \<in> set xs \<and> issued_by env cert ic"
  by (induction xs) (auto simp: issued_by_def split: if_splits)

lemma associate_scan_None:
  "associate_scan env cert xs = None \<Longrightarrow> (j, ic) \<in> set xs \<Longrightarrow> \<not> issued_by env cert ic"
  by (induction xs) (auto simp: issued_by_def split: if_splits)

lemma associate_finds:
  assumes "range_covers env" and "map_of icm i = Some ic" and "issued_by env cert ic"
  shows "\<exists>j ic'. associate_scan env cert (go_range env icm) = Some j
           \<and> map_of icm j = Some ic' \<and> issued_by env cert ic'"
proof -
  have "i \<in> set (map fst icm)"
    using assms(2) by (auto dest!: map_of_SomeD intro: rev_image_eqI)
  then have "i \<in> set (range_order env (map fst icm))"
    using assms(1) unfolding range_covers_def by blast
  then have m: "(i, ic) \<in> set (go_range env icm)"
    using assms(2) by (rule go_range_complete [rotated])
  show ?thesis
  proof (cases "associate_scan env cert (go_range env icm)")
    case None
    from associate_scan_None [OF None m] assms(3) show ?thesis by simp
  next
    case (Some j)
    from associate_scan_Some [OF Some] obtain ic' where "(j, ic') \<in> set (go_range env icm)"
      and "issued_by env cert ic'" by blast
    with Some show ?thesis by (auto dest: go_range_sound)
  qed
qed

lemma issuerSerialCertMap_candidates:
  assumes "map_of (build_issuerSerialCertMap env icm) ser = Some candidates"
      and "c \<in> set candidates"
  shows "\<exists>i. map_of icm i = Some c"
proof -
  have "map_of (fold (\<lambda>(i, cert) m. map_append (serialFromCert env cert) cert m) xs m0) ser
          = Some cs \<Longrightarrow> c \<in> set cs
        \<Longrightarrow> (\<exists>i. (i, c) \<in> set xs) \<or> (\<exists>cs0. map_of m0 ser = Some cs0 \<and> c \<in> set cs0)"
    for xs m0 cs
  proof (induction xs arbitrary: m0)
    case Nil
    then show ?case by simp
  next
    case (Cons a xs)
    obtain i cert where a: "a = (i, cert)" by (cases a)
    from Cons.IH [of "map_append (serialFromCert env cert) cert m0"] Cons.prems a
    have "(\<exists>i. (i, c) \<in> set xs)
          \<or> (\<exists>cs0. map_of (map_append (serialFromCert env cert) cert m0) ser = Some cs0
                    \<and> c \<in> set cs0)"
      by simp
    then show ?case
      using a by (auto simp: map_of_map_append split: if_splits option.splits)
  qed
  from this [of "go_range env icm" "[]" candidates] assms
  show ?thesis by (auto simp: build_issuerSerialCertMap_def dest: go_range_sound)
qed

lemma getRevokedCertEntries_step_other:
  assumes "getRevokedCertEntries_step env icm iscm serial acc s = (res, s')"
      and "serial \<noteq> sr"
  shows "log_get (storage s') (revokedPath @ sr) = log_get (storage s) (revokedPath @ sr)"
  using assms
  by (auto simp: getRevokedCertEntries_step_def Let_def storage_Put_def
           split: sum.splits option.splits prod.splits bool.splits if_splits)

lemma getRevokedCertEntries_step_hit:
  assumes "getRevokedCertEntries_step env icm iscm sr acc s = (Inr acc', s')"
      and "log_get (storage s) (revokedPath @ sr) = Some (SRevInfo r)"
      and "ParseCertificate env (CertificateBytes r) = Inr cert"
      and "\<And>candidates c. map_of iscm (serialFromCert env cert) = Some candidates
             \<Longrightarrow> c \<in> set candidates \<Longrightarrow> Raw c \<noteq> Raw cert"
      and "CertificateIssuer r = [] \<or> map_of icm (CertificateIssuer r) = None"
      and "associate_scan env cert (go_range env icm) = Some j"
  shows "storage s' = (revokedPath @ sr, Some (SRevInfo (r\<lparr>CertificateIssuer := j\<rparr>))) # storage s"
proof -
  have g: "storage_Get env s (revokedPath @ sr) = Inr (Some (SRevInfo r))"
    using assms(1,2)
    by (auto simp: getRevokedCertEntries_step_def storage_Get_def split: option.splits)
  have n: "\<not> (case map_of iscm (serialFromCert env cert) of
               Some candidates \<Rightarrow> list_ex (\<lambda>candidate. Raw candidate = Raw cert) candidates
             | None \<Rightarrow> False)"
    using assms(4) by (auto simp: list_ex_iff split: option.splits)
  show ?thesis
    using assms(1,3,5,6) g n
    by (auto simp: getRevokedCertEntries_step_def Let_def storage_Put_def
                   DecodeJSON_revocationInfo_def associateRevokedCertWithIsssuer_def
             split: option.splits prod.splits if_splits)
qed


lemma getRevokedCertEntries_loop_other:
  assumes "getRevokedCertEntries_loop env icm iscm serials acc s = (res, s')"
      and "sr \<notin> set serials"
  shows "log_get (storage s') (revokedPath @ sr) = log_get (storage s) (revokedPath @ sr)"
  using assms
proof (induction serials arbitrary: acc s)
  case Nil
  then show ?case by simp
next
  case (Cons serial rest)
  obtain r1 s1 where c: "getRevokedCertEntries_step env icm iscm serial acc s = (r1, s1)"
    by (cases "getRevokedCertEntries_step env icm iscm serial acc s")
  have 1: "log_get (storage s1) (revokedPath @ sr) = log_get (storage s) (revokedPath @ sr)"
    using getRevokedCertEntries_step_other [OF c, of sr] Cons.prems(2) by auto
  show ?case
  proof (cases r1)
    case (Inl e)
    then show ?thesis using Cons.prems c 1 by simp
  next
    case (Inr acc1)
    then have "getRevokedCertEntries_loop env icm iscm rest acc1 s1 = (res, s')"
      using Cons.prems c by simp
    from Cons.IH [OF this] Cons.prems(2) 1 show ?thesis by simp
  qed
qed

lemma getRevokedCertEntries_loop_hit:
  assumes "getRevokedCertEntries_loop env icm iscm serials acc s = (Inr acc', s')"
      and "distinct serials" and "sr \<in> set serials"
      and "log_get (storage s) (revokedPath @ sr) = Some (SRevInfo r)"
      and "ParseCertificate env (CertificateBytes r) = Inr cert"
      and "\<And>candidates c. map_of iscm (serialFromCert env cert) = Some candidates
             \<Longrightarrow> c \<in> set candidates \<Longrightarrow> Raw c \<noteq> Raw cert"
      and "CertificateIssuer r = [] \<or> map_of icm (CertificateIssuer r) = None"
      and "associate_scan env cert (go_range env icm) = Some j"
  shows "log_get (storage s') (revokedPath @ sr) = Some (SRevInfo (r\<lparr>CertificateIssuer := j\<rparr>))"
  using assms(1,2,3,4)
proof (induction serials arbitrary: acc s)
  case Nil
  then show ?case by simp
next
  case (Cons serial rest)
  obtain r1 s1 where c: "getRevokedCertEntries_step env icm iscm serial acc s = (r1, s1)"
    by (cases "getRevokedCertEntries_step env icm iscm serial acc s")
  with Cons.prems(1) obtain acc1 where r1: "r1 = Inr acc1"
    and rest: "getRevokedCertEntries_loop env icm iscm rest acc1 s1 = (Inr acc', s')"
    by (cases r1) auto
  show ?case
  proof (cases "serial = sr")
    case True
    from getRevokedCertEntries_step_hit [OF c [unfolded r1 True] Cons.prems(4) assms(5,6,7,8)]
    have "log_get (storage s1) (revokedPath @ sr) = Some (SRevInfo (r\<lparr>CertificateIssuer := j\<rparr>))"
      by simp
    moreover have "sr \<notin> set rest" using Cons.prems(2) True by simp
    ultimately show ?thesis using getRevokedCertEntries_loop_other [OF rest] by simp
  next
    case False
    have "log_get (storage s1) (revokedPath @ sr) = Some (SRevInfo r)"
      using getRevokedCertEntries_step_other [OF c False] Cons.prems(4) by simp
    moreover have "distinct rest" "sr \<in> set rest" using Cons.prems(2,3) False by auto
    ultimately show ?thesis using Cons.IH [OF rest] by simp
  qed
qed

lemma log_get_in_keys: "log_get l k \<noteq> None \<Longrightarrow> k \<in> fst ` set l"
  by (induction l) (auto split: if_splits)

lemma storage_List_serials:
  assumes "storage_List env s p = Inr serials"
  shows "distinct serials \<and> (log_get (storage s) (p @ sr) \<noteq> None \<longrightarrow> sr \<in> set serials)"
proof -
  define ks where
    "ks = filter (\<lambda>k. take (length p) k = p \<and> log_get (storage s) k \<noteq> None)
            (remdups (map fst (rev (storage s))))"
  have s: "serials = map (drop (length p)) ks"
    using assms by (auto simp: storage_List_def ks_def split: option.splits)
  have "inj_on (drop (length p)) (set ks)"
  proof (rule inj_onI)
    fix x y assume "x \<in> set ks" "y \<in> set ks" "drop (length p) x = drop (length p) y"
    then have "take (length p) x @ drop (length p) x = take (length p) y @ drop (length p) y"
      by (simp add: ks_def)
    then show "x = y" by simp
  qed
  moreover have "distinct ks" by (simp add: ks_def)
  ultimately have d: "distinct serials" unfolding s by (simp add: distinct_map)
  have "log_get (storage s) (p @ sr) \<noteq> None \<Longrightarrow> sr \<in> set serials"
  proof -
    assume a: "log_get (storage s) (p @ sr) \<noteq> None"
    then have "p @ sr \<in> set ks"
      using log_get_in_keys [OF a] by (auto simp: ks_def)
    then have "drop (length p) (p @ sr) \<in> drop (length p) ` set ks" by (rule imageI)
    then show ?thesis unfolding s by simp
  qed
  with d show ?thesis by blast
qed


lemma crl_write_key:
  "crl_write env g (k, v) \<Longrightarrow>
     take 5 k = ''crls/'' \<or> k = legacyCRLPath env \<or> k = storageLocalCRLConfig env"
proof (cases v)
  case None
  then show "crl_write env g (k, v) \<Longrightarrow> ?thesis" by simp
next
  case (Some y)
  then show "crl_write env g (k, v) \<Longrightarrow> ?thesis" by (cases y) auto
qed

lemma crl_writes_keep_entry:
  assumes "writes_only (\<lambda>l. crl_write env g) s1 s'"
      and "take 8 (legacyCRLPath env) \<noteq> revokedPath"
      and "take 8 (storageLocalCRLConfig env) \<noteq> revokedPath"
  shows "log_get (storage s') (revokedPath @ sr) = log_get (storage s1) (revokedPath @ sr)"
proof -
  define v where "v = log_get (storage s1) (revokedPath @ sr)"
  have "log_get (storage s') (revokedPath @ sr) = v"
  proof (rule writes_only_invariant [OF assms(1), where I="\<lambda>l. log_get l (revokedPath @ sr) = v"])
    show "log_get (storage s1) (revokedPath @ sr) = v" by (simp add: v_def)
  next
    fix l :: "(string \<times> sval option) list" and x :: "string \<times> sval option"
    assume i: "log_get l (revokedPath @ sr) = v" and w: "crl_write env g x"
    obtain k y where x: "x = (k, y)" by (cases x)
    have "take 8 (revokedPath @ sr) = revokedPath" and "take 5 (revokedPath @ sr) \<noteq> ''crls/''"
      by (simp_all add: revokedPath_def)
    with crl_write_key [OF w [unfolded x]] assms(2,3)
    have "k \<noteq> revokedPath @ sr"
      by metis
    with i x show "log_get (x # l) (revokedPath @ sr) = v" by simp
  qed
  then show ?thesis by (simp add: v_def)
qed

lemma buildCRLs_sets_issuer:
  assumes "getConfigWithUpdate env s = (Inr g, s0)"
      and "\<not> (Disable g \<and> \<not> forceNew)"
      and "buildCRLs env forceNew s = (Inr (), s')"
      and "range_covers env"
      and "take 8 (legacyCRLPath env) \<noteq> revokedPath"
      and "take 8 (storageLocalCRLConfig env) \<noteq> revokedPath"
      and "log_get (storage s) (revokedPath @ sr) = Some (SRevInfo r)"
      and "ParseCertificate env (CertificateBytes r) = Inr cert"
      and "CertificateIssuer r = [] \<or> map_of (build_icm env) (CertificateIssuer r) = None"
      and "\<forall>i ic. map_of (build_icm env) i = Some ic \<longrightarrow> Raw ic \<noteq> Raw cert"
      and "\<exists>i ic. map_of (build_icm env) i = Some ic \<and> issued_by env cert ic"
  shows "\<exists>j ic. map_of (build_icm env) j = Some ic \<and> issued_by env cert ic
           \<and> log_get (storage s') (revokedPath @ sr)
               = Some (SRevInfo (r\<lparr>CertificateIssuer := j\<rparr>))"
proof -
  have run: "buildCRLs_run env g forceNew s0 = (Inr (), s')"
    using assms(1,2,3) by (auto simp: buildCRLs_def)
  have st: "storage s0 = storage s"
    using getConfigWithUpdate_frame [OF assms(1)] by simp
  from writes_only_run_parts [OF run]
  obtain issuers iem icm ksm p s1 where i: "issuers_of env = Inr issuers"
    and b: "buildCRLs_issuers env issuers ([], [], []) = Inr (iem, icm, ksm)"
    and ge: "getRevokedCertEntries env icm s0 = (Inr p, s1)"
    and w: "writes_only (\<lambda>l. crl_write env g) s1 s'"
    by auto
  have icm: "build_icm env = icm" using build_icm_eq [OF i b] .
  from assms(11) obtain i0 ic0 where "map_of icm i0 = Some ic0" "issued_by env cert ic0"
    unfolding icm by blast
  from associate_finds [OF assms(4) this]
  obtain j ic where a: "associate_scan env cert (go_range env icm) = Some j"
    and m: "map_of icm j = Some ic" "issued_by env cert ic"
    by blast
  obtain serials where l: "storage_List env s0 revokedPath = Inr serials"
    and lp: "getRevokedCertEntries_loop env icm (build_issuerSerialCertMap env icm) serials
               ([], []) s0 = (Inr p, s1)"
    using ge by (cases "storage_List env s0 revokedPath") (auto simp: getRevokedCertEntries_def)
  from storage_List_serials [OF l, of sr] assms(7) st
  have d: "distinct serials" and sr: "sr \<in> set serials" by auto
  have c: "\<And>candidates c.
             map_of (build_issuerSerialCertMap env icm) (serialFromCert env cert) = Some candidates
             \<Longrightarrow> c \<in> set candidates \<Longrightarrow> Raw c \<noteq> Raw cert"
    using issuerSerialCertMap_candidates assms(10) unfolding icm by blast
  have "log_get (storage s1) (revokedPath @ sr) = Some (SRevInfo (r\<lparr>CertificateIssuer := j\<rparr>))"
    by (rule getRevokedCertEntries_loop_hit [OF lp d sr _ assms(8) c _ a])
       (use assms(7,9) st icm in auto)
  with crl_writes_keep_entry [OF w assms(5,6), of sr] m icm show ?thesis by auto
qed

lemma revokeCert_store_new:
  assumes "revokeCert_store env serial fromLease icm zero_revocationInfo s = (Inr e0, s1)"
      and "fetchCertBySerial env (storage s) ''certs/'' serial = Inr (Some (SBytes der))"
      and "ParseCertificate env der = Inr cert"
  shows "storage s1 = (revokedPath @ normalizeSerial env serial, Some (SRevInfo e0)) # storage s
         \<and> e0 = fst (associateRevokedCertWithIsssuer env
                        \<lparr>CertificateBytes = der, RevocationTime = Unix (Now env),
                         RevocationTimeUTC = Now env, CertificateIssuer = []\<rparr> cert icm)"
  using assms
  by (auto simp: revokeCert_store_def Let_def storage_Put_def zero_revocationInfo_def
           split: if_splits option.splits)

lemma associate_keeps_data:
  "fst (associateRevokedCertWithIsssuer env r cert icm)
     = r\<lparr>CertificateIssuer := CertificateIssuer (fst (associateRevokedCertWithIsssuer env r cert icm))\<rparr>"
  by (simp add: associateRevokedCertWithIsssuer_def split: option.splits)

lemma build_writes_keep_association:
  assumes "writes_ok (build_write env g icmB) l0 w"
      and "take 8 (legacyCRLPath env) \<noteq> revokedPath"
      and "take 8 (storageLocalCRLConfig env) \<noteq> revokedPath"
      and "ParseCertificate env (CertificateBytes e0) = Inr cert"
      and "log_get l0 (revokedPath @ sr) = Some (SRevInfo e0)"
  shows "\<exists>r'. log_get (w @ l0) (revokedPath @ sr) = Some (SRevInfo r')
              \<and> r' = e0\<lparr>CertificateIssuer := CertificateIssuer r'\<rparr>
              \<and> (CertificateIssuer r' = CertificateIssuer e0
                  \<or> associate_scan env cert (go_range env icmB) = Some (CertificateIssuer r'))"
proof -
  define I where
    "I = (\<lambda>l. \<exists>r'. log_get l (revokedPath @ sr) = Some (SRevInfo r')
              \<and> r' = e0\<lparr>CertificateIssuer := CertificateIssuer r'\<rparr>
              \<and> (CertificateIssuer r' = CertificateIssuer e0
                  \<or> associate_scan env cert (go_range env icmB) = Some (CertificateIssuer r')))"
  have step: "I (x # l)" if i: "I l" and w: "build_write env g icmB l x" for l x
  proof -
    obtain k y where x: "x = (k, y)" by (cases x)
    show ?thesis
    proof (cases "k = revokedPath @ sr")
      case False
      then show ?thesis using i x by (simp add: I_def)
    next
      case True
      have "take 8 k = revokedPath" and "take 5 k \<noteq> ''crls/''"
        using True by (simp_all add: revokedPath_def)
      with assms(2,3) have "\<not> crl_write env g (k, y)"
        using crl_write_key [of env g k y] by metis
      with w x have e: "entry_write env icmB l (k, y)"
        by (simp add: build_write_def)
      from i obtain r0 where r0: "log_get l (revokedPath @ sr) = Some (SRevInfo r0)"
        "r0 = e0\<lparr>CertificateIssuer := CertificateIssuer r0\<rparr>"
        by (auto simp: I_def)
      have "CertificateBytes r0 = CertificateBytes (e0\<lparr>CertificateIssuer := CertificateIssuer r0\<rparr>)"
        using r0(2) by simp
      then have pc: "ParseCertificate env (CertificateBytes r0) = Inr cert"
        using assms(4) by simp
      from e obtain r1 where y: "y = Some (SRevInfo r1)"
        by (cases y; cases "the y") auto
      from e [unfolded y] True r0(1) pc
      have r1: "r1 = r0\<lparr>CertificateIssuer := CertificateIssuer r1\<rparr>"
        and a: "associate_scan env cert (go_range env icmB) = Some (CertificateIssuer r1)"
        by auto
      have "r1 = (e0\<lparr>CertificateIssuer := CertificateIssuer r0\<rparr>)\<lparr>CertificateIssuer := CertificateIssuer r1\<rparr>"
        using r1 r0(2) by simp
      then have "r1 = e0\<lparr>CertificateIssuer := CertificateIssuer r1\<rparr>"
        by simp
      with a x y True show ?thesis by (auto simp: I_def)
    qed
  qed
  have "I l0" using assms(5) by (auto simp: I_def)
  from writes_ok_invariant [of I "build_write env g icmB", OF step this assms(1)]
  show ?thesis by (simp add: I_def)
qed


lemma revokeCert_sets_issuer:
  assumes "range_covers env"
      and "take 8 (legacyCRLPath env) \<noteq> revokedPath"
      and "take 8 (storageLocalCRLConfig env) \<noteq> revokedPath"
      and "\<not> Tainted env"
      and "issuers_of env = Inr issuers"
      and "\<forall>i \<in> set issuers. \<exists>c. issuer_certificate env i = Some c
             \<and> serialFromCert env c \<noteq> ReplaceAll_hyphen_colon (ToLower serial)"
      and "fetchCertBySerial env (storage s) revokedPath serial = Inr None"
      and "fetchCertBySerial env (storage s) ''certs/'' serial = Inr (Some (SBytes der))"
      and "ParseCertificate env der = Inr cert"
      and "Now env + 2 * Second \<le> NotAfter cert"
      and "\<exists>i \<in> set issuers. \<exists>ic. issuer_certificate env i = Some ic \<and> issued_by env cert ic"
      and "revokeCert env serial fromLease s = (Inr (Some resp), s')"
      and "\<not> IsError resp"
  shows "\<exists>r'. log_get (storage s') (revokedPath @ normalizeSerial env serial) = Some (SRevInfo r')
              \<and> CertificateBytes r' = der
              \<and> RevocationTime r' = Unix (Now env)
              \<and> RevocationTimeUTC r' = Now env
              \<and> issuer_known env cert (CertificateIssuer r')"
proof -
  from revokeCert_issuers_ok [OF assms(6), of "[]"]
  obtain icm where ri: "revokeCert_issuers env serial issuers [] = Inr icm"
    and icm: "\<And>i. map_of icm i = (if i \<in> set issuers then issuer_certificate env i else None)"
    by auto
  obtain r1 s1 where st: "revokeCert_store env serial fromLease icm zero_revocationInfo s = (r1, s1)"
    by (cases "revokeCert_store env serial fromLease icm zero_revocationInfo s")
  have rc: "revokeCert env serial fromLease s
              = (case r1 of Inl early \<Rightarrow> (early, s1) | Inr revInfo \<Rightarrow> revokeCert_respond env revInfo s1)"
    using assms(4,5,7) ri st
    by (auto simp: revokeCert_def issuers_of_def split: if_splits sum.splits)
  have "\<exists>e0. r1 = Inr e0"
  proof (cases r1)
    case (Inl early)
    then have "early = Inr (Some resp)" using rc assms(12) by simp
    with Inl st assms(8,9,10) show ?thesis
      by (auto simp: revokeCert_store_def Let_def split: if_splits prod.splits sum.splits)
  next
    case (Inr e0)
    then show ?thesis by blast
  qed
  then obtain e0 where e0: "r1 = Inr e0" by blast
  from revokeCert_store_new [OF st [unfolded e0] assms(8,9)]
  have s1: "storage s1 = (revokedPath @ normalizeSerial env serial, Some (SRevInfo e0)) # storage s"
    and e0d: "e0 = fst (associateRevokedCertWithIsssuer env
                        \<lparr>CertificateBytes = der, RevocationTime = Unix (Now env),
                         RevocationTimeUTC = Now env, CertificateIssuer = []\<rparr> cert icm)"
    by auto
  from assms(11) obtain i0 ic0 where "i0 \<in> set issuers" "issuer_certificate env i0 = Some ic0"
    and ib: "issued_by env cert ic0"
    by blast
  then have "map_of icm i0 = Some ic0" using icm [of i0] by simp
  from associate_finds [OF assms(1) this ib]
  obtain j0 ic where a: "associate_scan env cert (go_range env icm) = Some j0"
    and m: "map_of icm j0 = Some ic" "issued_by env cert ic"
    by blast
  have e0v: "e0 = \<lparr>CertificateBytes = der, RevocationTime = Unix (Now env),
                   RevocationTimeUTC = Now env, CertificateIssuer = j0\<rparr>"
    using e0d a by (simp add: associateRevokedCertWithIsssuer_def)
  have k0: "issuer_known env cert j0"
    using m icm [of j0] by (auto simp: issuer_known_def split: if_splits)
  have rs: "revokeCert_respond env e0 s1 = (Inr (Some resp), s')"
    using rc e0 assms(12) by simp
  from revokeCert_respond_writes [OF rs]
  obtain w where w: "storage s' = w @ storage s1"
    "writes_ok (build_write env (config s') (build_icm env)) (storage s1) w"
    by blast
  have pc: "ParseCertificate env (CertificateBytes e0) = Inr cert"
    using e0v assms(9) by simp
  have l0: "log_get (storage s1) (revokedPath @ normalizeSerial env serial) = Some (SRevInfo e0)"
    using s1 by simp
  from build_writes_keep_association [OF w(2) assms(2,3) pc l0]
  obtain r' where r': "log_get (storage s') (revokedPath @ normalizeSerial env serial)
                         = Some (SRevInfo r')"
    "r' = e0\<lparr>CertificateIssuer := CertificateIssuer r'\<rparr>"
    "CertificateIssuer r' = CertificateIssuer e0
       \<or> associate_scan env cert (go_range env (build_icm env)) = Some (CertificateIssuer r')"
    unfolding w(1) by blast
  have d: "CertificateBytes r' = der \<and> RevocationTime r' = Unix (Now env)
           \<and> RevocationTimeUTC r' = Now env"
  proof -
    have "r' = \<lparr>CertificateBytes = der, RevocationTime = Unix (Now env),
                RevocationTimeUTC = Now env, CertificateIssuer = CertificateIssuer r'\<rparr>"
      using r'(2) unfolding e0v by simp
    then show ?thesis by (metis revocationInfo.select_convs(1,2,3))
  qed
  have "issuer_known env cert (CertificateIssuer r')"
  proof (cases "CertificateIssuer r' = CertificateIssuer e0")
    case True
    then show ?thesis using k0 e0v by simp
  next
    case False
    with r'(3) have "associate_scan env cert (go_range env (build_icm env))
                       = Some (CertificateIssuer r')" by simp
    from associate_scan_Some [OF this] show ?thesis
      by (auto simp: issuer_known_def dest: go_range_sound)
  qed
  with r'(1) d show ?thesis by blast
qed

text \<open>
  Claim C4.  Go's \<^verbatim>\<open>range\<close> visits every key, and the legacy CRL path and the key of
  the index are not under \<^verbatim>\<open>revoked/\<close>.  First part: a call of \<^verbatim>\<open>revokeCert\<close> that
  revokes a certificate (the mount is not tainted, the issuers load and do not have the
  serial, the serial is not revoked yet, the certificate is found, parses and has not
  expired) for which one of the issuers passes the test of the association, and that
  returns a response which is not an error, leaves at \<^verbatim>\<open>revoked/<serial>\<close> an entry with
  the certificate's bytes, the time of the revocation, and as \<^verbatim>\<open>issuer_id\<close> an issuer that
  passes the test.  Second part: a successful \<^verbatim>\<open>buildCRLs\<close> that does not return early,
  on an entry whose \<^verbatim>\<open>issuer_id\<close> is empty or not among the build's issuers, whose
  certificate is not the certificate of one of them, and for which one of them passes
  the test, leaves at the entry's key the same entry with such an issuer as \<^verbatim>\<open>issuer_id\<close>.
\<close>

theorem revocation_entry_gets_issuer:
  assumes "range_covers env"
      and "take 8 (legacyCRLPath env) \<noteq> revokedPath"
      and "take 8 (storageLocalCRLConfig env) \<noteq> revokedPath"
  shows "(\<not> Tainted env
          \<and> issuers_of env = Inr issuers
          \<and> (\<forall>i \<in> set issuers. \<exists>c. issuer_certificate env i = Some c
                 \<and> serialFromCert env c \<noteq> ReplaceAll_hyphen_colon (ToLower serial))
          \<and> fetchCertBySerial env (storage s) revokedPath serial = Inr None
          \<and> fetchCertBySerial env (storage s) ''certs/'' serial = Inr (Some (SBytes der))
          \<and> ParseCertificate env der = Inr cert
          \<and> Now env + 2 * Second \<le> NotAfter cert
          \<and> (\<exists>i \<in> set issuers. \<exists>ic. issuer_certificate env i = Some ic \<and> issued_by env cert ic)
          \<and> revokeCert env serial fromLease s = (Inr (Some resp), s')
          \<and> \<not> IsError resp
          \<longrightarrow> (\<exists>r'. log_get (storage s') (revokedPath @ normalizeSerial env serial)
                        = Some (SRevInfo r')
                     \<and> CertificateBytes r' = der
                     \<and> RevocationTime r' = Unix (Now env)
                     \<and> RevocationTimeUTC r' = Now env
                     \<and> issuer_known env cert (CertificateIssuer r')))
         \<and> (getConfigWithUpdate env sb = (Inr g, sb0)
             \<and> \<not> (Disable g \<and> \<not> forceNew)
             \<and> buildCRLs env forceNew sb = (Inr (), sb')
             \<and> log_get (storage sb) (revokedPath @ sr) = Some (SRevInfo r)
             \<and> ParseCertificate env (CertificateBytes r) = Inr certb
             \<and> (CertificateIssuer r = [] \<or> map_of (build_icm env) (CertificateIssuer r) = None)
             \<and> (\<forall>i ic. map_of (build_icm env) i = Some ic \<longrightarrow> Raw ic \<noteq> Raw certb)
             \<and> (\<exists>i ic. map_of (build_icm env) i = Some ic \<and> issued_by env certb ic)
             \<longrightarrow> (\<exists>j ic. map_of (build_icm env) j = Some ic \<and> issued_by env certb ic
                        \<and> log_get (storage sb') (revokedPath @ sr)
                            = Some (SRevInfo (r\<lparr>CertificateIssuer := j\<rparr>))))"
proof (intro conjI impI)
  assume h: "\<not> Tainted env
          \<and> issuers_of env = Inr issuers
          \<and> (\<forall>i \<in> set issuers. \<exists>c. issuer_certificate env i = Some c
                 \<and> serialFromCert env c \<noteq> ReplaceAll_hyphen_colon (ToLower serial))
          \<and> fetchCertBySerial env (storage s) revokedPath serial = Inr None
          \<and> fetchCertBySerial env (storage s) ''certs/'' serial = Inr (Some (SBytes der))
          \<and> ParseCertificate env der = Inr cert
          \<and> Now env + 2 * Second \<le> NotAfter cert
          \<and> (\<exists>i \<in> set issuers. \<exists>ic. issuer_certificate env i = Some ic \<and> issued_by env cert ic)
          \<and> revokeCert env serial fromLease s = (Inr (Some resp), s')
          \<and> \<not> IsError resp"
  show "\<exists>r'. log_get (storage s') (revokedPath @ normalizeSerial env serial) = Some (SRevInfo r')
              \<and> CertificateBytes r' = der
              \<and> RevocationTime r' = Unix (Now env)
              \<and> RevocationTimeUTC r' = Now env
              \<and> issuer_known env cert (CertificateIssuer r')"
    using h
    by (elim conjE)
       (rule revokeCert_sets_issuer [OF assms, of issuers serial s der cert fromLease resp s'],
        assumption+)
next
  assume h: "getConfigWithUpdate env sb = (Inr g, sb0)
             \<and> \<not> (Disable g \<and> \<not> forceNew)
             \<and> buildCRLs env forceNew sb = (Inr (), sb')
             \<and> log_get (storage sb) (revokedPath @ sr) = Some (SRevInfo r)
             \<and> ParseCertificate env (CertificateBytes r) = Inr certb
             \<and> (CertificateIssuer r = [] \<or> map_of (build_icm env) (CertificateIssuer r) = None)
             \<and> (\<forall>i ic. map_of (build_icm env) i = Some ic \<longrightarrow> Raw ic \<noteq> Raw certb)
             \<and> (\<exists>i ic. map_of (build_icm env) i = Some ic \<and> issued_by env certb ic)"
  show "\<exists>j ic. map_of (build_icm env) j = Some ic \<and> issued_by env certb ic
           \<and> log_get (storage sb') (revokedPath @ sr) = Some (SRevInfo (r\<lparr>CertificateIssuer := j\<rparr>))"
    using h
    by (elim conjE)
       (rule buildCRLs_sets_issuer [OF _ _ _ assms, of sb g sb0 forceNew sb' sr r certb],
        assumption+)
qed


theorem revocation_entry_gets_issuer_witness:
  "(\<exists>r'. log_get (storage (snd (revokeCert ex_env ''1A'' False ex_state)))
               (revokedPath @ normalizeSerial ex_env ''1A'') = Some (SRevInfo r')
          \<and> CertificateBytes r' = ''der-leaf''
          \<and> RevocationTime r' = Unix (Now ex_env)
          \<and> RevocationTimeUTC r' = Now ex_env
          \<and> issuer_known ex_env ex_leaf (CertificateIssuer r'))
   \<and> (\<exists>j ic. map_of (build_icm ex_env) j = Some ic \<and> issued_by ex_env ex_leaf ic
          \<and> log_get (storage (snd (buildCRLs ex_env False ex_state_unassociated)))
                (revokedPath @ ''1a'')
              = Some (SRevInfo \<lparr>CertificateBytes = ''der-leaf'', RevocationTime = 1664403200,
                                RevocationTimeUTC = ex_now, CertificateIssuer = j\<rparr>))"
proof -
  have rc: "range_covers ex_env"
    by (simp add: range_covers_def ex_env_def)
  have p1: "take 8 (legacyCRLPath ex_env) \<noteq> revokedPath"
    and p2: "take 8 (storageLocalCRLConfig ex_env) \<noteq> revokedPath"
    by (simp_all add: ex_env_def revokedPath_def)
  note t = revocation_entry_gets_issuer [OF rc p1 p2]
  have ib: "issued_by ex_env ex_leaf ex_ca"
    by (simp add: issued_by_def ex_env_def ex_leaf_def ex_ca_def)
  \<comment> \<open>the revocation\<close>
  have a1: "\<not> Tainted ex_env"
    by (simp add: ex_env_def)
  have a3: "\<forall>i \<in> set [''issuer-1'', ''issuer-2'']. \<exists>c. issuer_certificate ex_env i = Some c
             \<and> serialFromCert ex_env c \<noteq> ReplaceAll_hyphen_colon (ToLower ''1A'')"
    by (simp add: ex_issuer_certificate ex_serials)
  have a4: "fetchCertBySerial ex_env (storage ex_state) revokedPath ''1A'' = Inr None"
    by code_simp
  have a5: "fetchCertBySerial ex_env (storage ex_state) ''certs/'' ''1A''
              = Inr (Some (SBytes ''der-leaf''))"
    by code_simp
  have a6: "ParseCertificate ex_env ''der-leaf'' = Inr ex_leaf"
    by (simp add: ex_env_def)
  have a7: "Now ex_env + 2 * Second \<le> NotAfter ex_leaf"
    by (simp add: ex_env_def ex_leaf_def Second_def)
  have a8: "\<exists>i \<in> set [''issuer-1'', ''issuer-2'']. \<exists>ic. issuer_certificate ex_env i = Some ic
              \<and> issued_by ex_env ex_leaf ic"
    using ib by (simp add: ex_issuer_certificate)
  have "fst (revokeCert ex_env ''1A'' False ex_state)
          = Inr (Some \<lparr>resp_Data =
                         [(''revocation_time'', RInt 1664403200),
                          (''revocation_time_rfc3339'', RStr ''2022-09-23T12:00:00Z'')],
                       resp_Warnings = []\<rparr>)"
    by code_simp
  then have a9: "revokeCert ex_env ''1A'' False ex_state
          = (Inr (Some \<lparr>resp_Data =
                         [(''revocation_time'', RInt 1664403200),
                          (''revocation_time_rfc3339'', RStr ''2022-09-23T12:00:00Z'')],
                       resp_Warnings = []\<rparr>),
             snd (revokeCert ex_env ''1A'' False ex_state))"
    by (metis prod.collapse)
  have a10: "\<not> IsError \<lparr>resp_Data =
                         [(''revocation_time'', RInt 1664403200),
                          (''revocation_time_rfc3339'', RStr ''2022-09-23T12:00:00Z'')],
                       resp_Warnings = []\<rparr>"
    by (simp add: IsError_def)
  note r = t [THEN conjunct1, rule_format, OF conjI [OF a1 conjI [OF ex_issuers_of conjI [OF a3
             conjI [OF a4 conjI [OF a5 conjI [OF a6 conjI [OF a7 conjI [OF a8 conjI [OF a9 a10]]]]]]]]]]
  \<comment> \<open>the build\<close>
  have b1: "getConfigWithUpdate ex_env ex_state_unassociated
             = (Inr ex_config, ex_state_unassociated\<lparr>config := ex_config, dirty := False\<rparr>)"
    by (simp add: getConfigWithUpdate_def reloadConfigIfRequired_def ex_env_def
          ex_state_unassociated_def ex_state_def)
  have b2: "\<not> (Disable ex_config \<and> \<not> False)"
    by (simp add: ex_config_def)
  have "fst (buildCRLs ex_env False ex_state_unassociated) = Inr ()"
    by code_simp
  then have b3: "buildCRLs ex_env False ex_state_unassociated
                   = (Inr (), snd (buildCRLs ex_env False ex_state_unassociated))"
    by (metis prod.collapse)
  have b4: "log_get (storage ex_state_unassociated) (revokedPath @ ''1a'')
              = Some (SRevInfo \<lparr>CertificateBytes = ''der-leaf'', RevocationTime = 1664403200,
                                RevocationTimeUTC = ex_now, CertificateIssuer = []\<rparr>)"
    by (simp add: ex_state_unassociated_def revokedPath_def)
  have b5: "ParseCertificate ex_env
              (CertificateBytes \<lparr>CertificateBytes = ''der-leaf'', RevocationTime = 1664403200,
                                 RevocationTimeUTC = ex_now, CertificateIssuer = []\<rparr>) = Inr ex_leaf"
    by (simp add: ex_env_def)
  have b6: "CertificateIssuer \<lparr>CertificateBytes = ''der-leaf'', RevocationTime = 1664403200,
                               RevocationTimeUTC = ex_now, CertificateIssuer = []\<rparr> = []
            \<or> map_of (build_icm ex_env)
                 (CertificateIssuer \<lparr>CertificateBytes = ''der-leaf'', RevocationTime = 1664403200,
                               RevocationTimeUTC = ex_now, CertificateIssuer = []\<rparr>) = None"
    by simp
  have icm: "build_icm ex_env = [(''issuer-1'', ex_ca), (''issuer-2'', ex_ca)]"
    by code_simp
  have b7: "\<forall>i ic. map_of (build_icm ex_env) i = Some ic \<longrightarrow> Raw ic \<noteq> Raw ex_leaf"
    unfolding icm by (auto simp: ex_ca_def ex_leaf_def split: if_splits)
  have b8: "\<exists>i ic. map_of (build_icm ex_env) i = Some ic \<and> issued_by ex_env ex_leaf ic"
    unfolding icm using ib by auto
  note b = t [THEN conjunct2, rule_format, OF conjI [OF b1 conjI [OF b2 conjI [OF b3
             conjI [OF b4 conjI [OF b5 conjI [OF b6 conjI [OF b7 b8]]]]]]]]
  from r b show ?thesis by simp
qed

section \<open>CRL numbers\<close>

text \<open>
  One round of the loop over the classes, when it signs a CRL: the number signed is the
  one the map had for the CRL-ID (1 for a CRL-ID minted in this round), and the map then
  has that number plus one.
\<close>

lemma buildCRL_writes_number:
  assumes "buildCRL env g f i revoked c n s = (Inr nextUpdate, s')"
      and "\<not> (Disable g \<and> \<not> f)"
  shows "\<exists>path t cert. storage s' = (path, Some (SCRL t cert)) # storage s \<and> Number t = n
           \<and> path = (if i = legacyBundleShimID env then legacyCRLPath env else ''crls/'' @ c)"
  using assms
  by (auto simp: buildCRL_def buildCRL_WRITE_def storage_Put_def Let_def
           split: sum.splits option.splits if_splits)

lemma buildCRL_uuid_count:
  "buildCRL env g f i revoked c n s = (r, s') \<Longrightarrow> uuid_count s' = uuid_count s"
  by (auto simp: buildCRL_def buildCRL_WRITE_def storage_Put_def Let_def
           split: sum.splits option.splits if_splits)

lemma buildCRLs_class_signs_pre_increment:
  assumes "buildCRLs_class env g f dflt un rcm (first # others) cfg s = (Inr cfg', s')"
      and "\<not> (Disable g \<and> \<not> f)"
  shows "\<exists>c n path t cert.
           map_of (IssuerIDCRLMap cfg') first = Some c
           \<and> (n = number_of (CRLNumberMap cfg) c \<or> n = 1 \<and> uuid_count s' = Suc (uuid_count s)
                                                       \<and> c = genCRLId env (uuid_count s))
           \<and> storage s' = (path, Some (SCRL t cert)) # storage s
           \<and> Number t = n
           \<and> number_of (CRLNumberMap cfg') c = n + 1"
proof -
  obtain revokedCerts representative c0 ci where
    m: "buildCRLs_members dflt un rcm (IssuerIDCRLMap cfg) (first # others) ([], first, [], [])
          = Inr (revokedCerts, representative, c0, ci)"
    using assms(1) unfolding buildCRLs_class_def
    by (cases "buildCRLs_members dflt un rcm (IssuerIDCRLMap cfg) (first # others)
                 ([], first, [], [])")
       (auto simp del: buildCRLs_members.simps)
  note cls = assms(1) [unfolded buildCRLs_class_def Let_def list.case m sum.case prod.case]
  show ?thesis
  proof (cases "c0 = []")
    case True
    define c where "c = genCRLId env (uuid_count s)"
    obtain r2 s2 where b: "buildCRL env g f representative revokedCerts c
                             (number_of (AList.update c 1 (CRLNumberMap cfg)) c)
                             (s\<lparr>uuid_count := Suc (uuid_count s)\<rparr>) = (r2, s2)"
      by (cases "buildCRL env g f representative revokedCerts c
                   (number_of (AList.update c 1 (CRLNumberMap cfg)) c)
                   (s\<lparr>uuid_count := Suc (uuid_count s)\<rparr>)")
    have n1: "number_of (AList.update c 1 (CRLNumberMap cfg)) c = 1"
      by (simp add: number_of_def update_conv')
    from cls True b obtain nextUpdate where r2: "r2 = Inr nextUpdate" and s2: "s2 = s'"
      and cfg': "cfg' = \<lparr>IssuerIDCRLMap =
                          fold (\<lambda>issuerId m. AList.update issuerId c m) (first # others)
                            (IssuerIDCRLMap cfg),
                        CRLNumberMap = AList.update c (1 + 1) (AList.update c 1 (CRLNumberMap cfg)),
                        CRLExpirationMap = AList.update c nextUpdate (CRLExpirationMap cfg)\<rparr>"
      by (cases r2) (auto simp del: fold_simps simp: c_def [symmetric] n1)
    from buildCRL_writes_number [OF b [unfolded r2 s2 n1] assms(2)]
    obtain path t cert where w: "storage s' = (path, Some (SCRL t cert)) # storage s" "Number t = 1"
      by auto
    have "map_of (IssuerIDCRLMap cfg') first = Some c"
      unfolding cfg' by (simp add: map_of_fold_update update_conv')
    moreover have "number_of (CRLNumberMap cfg') c = 1 + 1"
      unfolding cfg' by (simp add: number_of_def update_conv')
    moreover have "uuid_count s' = Suc (uuid_count s)"
      using buildCRL_uuid_count [OF b] s2 by simp
    ultimately show ?thesis using w c_def by blast
  next
    case False
    define n where "n = number_of (CRLNumberMap cfg) c0"
    obtain r2 s2 where b: "buildCRL env g f representative revokedCerts c0 n s = (r2, s2)"
      by (cases "buildCRL env g f representative revokedCerts c0 n s")
    from cls False b obtain nextUpdate where r2: "r2 = Inr nextUpdate" and s2: "s2 = s'"
      and cfg': "cfg' = \<lparr>IssuerIDCRLMap =
                          fold (\<lambda>issuerId m. AList.update issuerId c0 m) (first # others)
                            (IssuerIDCRLMap cfg),
                        CRLNumberMap = AList.update c0 (n + 1) (CRLNumberMap cfg),
                        CRLExpirationMap = AList.update c0 nextUpdate (CRLExpirationMap cfg)\<rparr>"
      by (cases r2) (auto simp del: fold_simps simp: n_def [symmetric])
    from buildCRL_writes_number [OF b [unfolded r2 s2] assms(2)]
    obtain path t cert where w: "storage s' = (path, Some (SCRL t cert)) # storage s" "Number t = n"
      by auto
    have "map_of (IssuerIDCRLMap cfg') first = Some c0"
      unfolding cfg' by (simp add: map_of_fold_update update_conv')
    moreover have "number_of (CRLNumberMap cfg') c0 = n + 1"
      unfolding cfg' by (simp add: number_of_def update_conv')
    ultimately show ?thesis using w n_def by blast
  qed
qed

text \<open>
  Claim C1 at a failing input.  The index is persisted at the end of a successful
  build only.  A build that fails after it stored a CRL (here the write of the index is
  refused) has signed the number \<open>2\<close> and leaves the persisted number at \<open>2\<close>; the next
  build signs \<open>2\<close> again: the numbers written for the CRL-ID \<open>crl-\<close> are \<open>1, 2, 2\<close>.
\<close>

theorem buildCRLs_reuses_number_after_failed_build:
  "numbers_written ''crl-'' (storage ex_state_built) = [1]
   \<and> number_of (CRLNumberMap (index_of ex_env ex_state_built)) ''crl-'' = 2
   \<and> fst (buildCRLs ex_env_index_put_fails False ex_state_built)
       = Inl (PlainError ''error building CRLs: unable to persist updated cluster-local CRL config: context canceled'')
   \<and> numbers_written ''crl-'' (storage (snd (buildCRLs ex_env_index_put_fails False ex_state_built)))
       = [1, 2]
   \<and> fst (buildCRLs ex_env False (snd (buildCRLs ex_env_index_put_fails False ex_state_built)))
       = Inr ()
   \<and> numbers_written ''crl-''
         (storage (snd (buildCRLs ex_env False
                          (snd (buildCRLs ex_env_index_put_fails False ex_state_built)))))
       = [1, 2, 2]"
  by code_simp

end
